theory Spec2Isabelle
  imports Main "HOL-Library.Sublist" "HOL-Library.AList"
begin

section \<open>Paths (pathlib)\<close>

text \<open>
  A path is the list of its parts, as \<open>Path.parts\<close> gives them, relative to the working
  directory: \<open>Path(".")\<close> is the empty list and \<open>Path("t/a.ogg")\<close> is \<open>[''t'', ''a.ogg'']\<close>.
  Strings are byte lists; every pattern the scripts look for is ASCII.
\<close>

type_synonym path = "string list"

text \<open>\<open>Path(s)\<close>: split at the separator, dropping empty parts and \<open>.\<close> parts.\<close>

fun split_sep :: "string \<Rightarrow> string \<Rightarrow> string list" where
  "split_sep acc [] = [rev acc]"
| "split_sep acc (c # cs) =
     (if c = CHR ''/'' then rev acc # split_sep [] cs else split_sep (c # acc) cs)"

definition Path :: "string \<Rightarrow> path" where
  "Path s = filter (\<lambda>part. part \<noteq> [] \<and> part \<noteq> ''.'') (split_sep [] s)"

text \<open>\<open>str(p)\<close>: the parts joined by the separator; the empty path prints as a dot.\<close>

fun join_parts :: "string list \<Rightarrow> string" where
  "join_parts [] = []"
| "join_parts [x] = x"
| "join_parts (x # y # ys) = x @ ''/'' @ join_parts (y # ys)"

definition str_path :: "path \<Rightarrow> string" where
  "str_path p = (if p = [] then ''.'' else join_parts p)"

text \<open>\<open>p.name\<close>: the last part, empty for the empty path.\<close>

definition path_name :: "path \<Rightarrow> string" where
  "path_name p = (if p = [] then [] else last p)"

text \<open>\<open>s.rfind(c)\<close>: the index of the last occurrence, or \<open>-1\<close>.\<close>

fun rfind :: "string \<Rightarrow> char \<Rightarrow> int" where
  "rfind [] c = -1"
| "rfind (x # xs) c =
     (let r = rfind xs c in if 0 \<le> r then r + 1 else if x = c then 0 else -1)"

text \<open>
  \<open>PurePath.suffix\<close>: \<open>i = name.rfind('.')\<close>, and the suffix is \<open>name[i:]\<close> when
  \<open>0 < i < len(name) - 1\<close>, else the empty string.
\<close>

definition path_suffix :: "string \<Rightarrow> string" where
  "path_suffix nm =
     (let i = rfind nm CHR ''.''
      in if 0 < i \<and> i < int (length nm) - 1 then drop (nat i) nm else [])"

text \<open>
  \<open>p.with_suffix(sfx)\<close> for the two suffixes the scripts pass (both valid): ValueError,
  here \<open>None\<close>, when the path has an empty name; otherwise the old suffix of the name,
  if it has one, is cut off and \<open>sfx\<close> appended.
\<close>

definition with_suffix :: "path \<Rightarrow> string \<Rightarrow> path option" where
  "with_suffix p sfx =
     (let nm = path_name p in
      if nm = [] then None
      else let old = path_suffix nm in
        if old = [] then Some (butlast p @ [nm @ sfx])
        else Some (butlast p @ [take (length nm - length old) nm @ sfx]))"

section \<open>The file system and its primitives\<close>

text \<open>
  The file system is an association list from paths to nodes, in enumeration order:
  a regular file with its bytes, or a directory. The working directory (the empty path)
  is always there, as a directory.
\<close>

datatype node = File string | Dir

type_synonym fs = "(path \<times> node) list"

definition lookup :: "fs \<Rightarrow> path \<Rightarrow> node option" where
  "lookup fs p = (if p = [] then Some Dir else map_of fs p)"

definition path_exists :: "fs \<Rightarrow> path \<Rightarrow> bool" where
  "path_exists fs p = (lookup fs p \<noteq> None)"

text \<open>
  Every mutating primitive may fail for a reason outside the model (permissions, a full
  disk): the environment decides, from the state and the operation. A copy may refuse to
  open its target (\<open>Denied\<close>) or break off after writing some bytes (\<open>Broken n\<close>); for
  \<open>unlink\<close> and \<open>rename\<close> every fault leaves the state as it was.
\<close>

datatype io_op = Unlink path | Rename path path | CopyTo path

datatype fault = NoFault | Denied | Broken nat

type_synonym faults = "fs \<Rightarrow> io_op \<Rightarrow> fault"

text \<open>
  Each primitive returns whether it completed (\<open>False\<close>: it raised OSError) and the
  state it left.

  \<open>p.unlink()\<close> raises when \<open>p\<close> is missing or a directory.
\<close>

definition unlink :: "faults \<Rightarrow> path \<Rightarrow> fs \<Rightarrow> bool \<times> fs" where
  "unlink flt p fs =
     (case lookup fs p of
        Some (File b) \<Rightarrow>
          if flt fs (Unlink p) = NoFault then (True, AList.delete p fs) else (False, fs)
      | _ \<Rightarrow> (False, fs))"

text \<open>
  Writing the bytes \<open>b\<close> of a source file named \<open>srcname\<close> to \<open>dst\<close>, as \<open>shutil.copy2\<close>
  does once it has opened the source: a directory as destination means the file of the
  source's name inside it; the target is truncated and written from the start.
\<close>

definition copy_bytes :: "faults \<Rightarrow> string \<Rightarrow> string \<Rightarrow> path \<Rightarrow> fs \<Rightarrow> bool \<times> fs" where
  "copy_bytes flt b srcname dst fs =
     (let target = (if lookup fs dst = Some Dir then dst @ [srcname] else dst) in
      if lookup fs target = Some Dir then (False, fs)
      else case flt fs (CopyTo target) of
             NoFault \<Rightarrow> (True, AList.update target (File b) fs)
           | Denied \<Rightarrow> (False, fs)
           | Broken n \<Rightarrow> (False, AList.update target (File (take n b)) fs))"

text \<open>\<open>shutil.copy2(src, dst)\<close> raises when \<open>src\<close> is missing or a directory.\<close>

definition copy2 :: "faults \<Rightarrow> path \<Rightarrow> path \<Rightarrow> fs \<Rightarrow> bool \<times> fs" where
  "copy2 flt src dst fs =
     (case lookup fs src of
        Some (File b) \<Rightarrow> copy_bytes flt b (path_name src) dst fs
      | _ \<Rightarrow> (False, fs))"

text \<open>
  \<open>src.rename(dst)\<close> (POSIX): raises when \<open>src\<close> is missing; a file replaces a file or
  takes a free name; a directory moves with everything below it to a free name.
\<close>

definition rebase :: "path \<Rightarrow> path \<Rightarrow> path \<Rightarrow> path" where
  "rebase src dst q = (if prefix src q then dst @ drop (length src) q else q)"

definition rename :: "faults \<Rightarrow> path \<Rightarrow> path \<Rightarrow> fs \<Rightarrow> bool \<times> fs" where
  "rename flt src dst fs =
     (case lookup fs src of
        None \<Rightarrow> (False, fs)
      | Some n \<Rightarrow>
          if flt fs (Rename src dst) \<noteq> NoFault then (False, fs)
          else (case n of
                  File b \<Rightarrow>
                    (if lookup fs dst = Some Dir then (False, fs)
                     else (True, AList.update dst (File b) (AList.delete src fs)))
                | Dir \<Rightarrow>
                    (if lookup fs dst \<noteq> None then (False, fs)
                     else (True, map (\<lambda>(q, n). (rebase src dst q, n)) fs))))"

section \<open>The external tools\<close>

text \<open>
  A subprocess call either raises (the executable cannot be started) or exits with a
  status, having written its output file with some bytes or not at all. What the encoders
  compute is outside the model: every theorem below holds for all behaviours of the tools.
  A tool reads its input and writes to its output path only.
\<close>

datatype tool_outcome = ToolRaised | ToolExit int "string option"

text \<open>The availability probe (\<open>ffmpeg -version\<close>, \<open>oggenc --version\<close>).\<close>

datatype probe = NotFound | Exited int

record env =
  ffmpeg_probe :: probe
  oggenc_probe :: probe
  ffmpeg_encode :: "fs \<Rightarrow> path \<Rightarrow> path \<Rightarrow> tool_outcome"
  ffmpeg_decode :: "fs \<Rightarrow> path \<Rightarrow> tool_outcome"
  oggenc :: "fs \<Rightarrow> path \<Rightarrow> string \<Rightarrow> tool_outcome"
  io_fault :: faults
  stat_fault :: "fs \<Rightarrow> path \<Rightarrow> bool"
  tmpdir_fault :: "fs \<Rightarrow> path \<Rightarrow> bool"
  tmpdir_cleanup_fault :: "fs \<Rightarrow> path \<Rightarrow> bool"
  handler_print_fault :: "fs \<Rightarrow> path \<Rightarrow> bool"
  loop_print_fault :: "nat \<Rightarrow> nat \<Rightarrow> path \<Rightarrow> bool"

text \<open>
  The last five fields are the events around the two-stage transform and the loop that
  no handler covers, each decided by the environment:
  \<^item> \<open>stat_fault fs p\<close>: \<open>input_path.exists()\<close> of fix\_ogg\_xray.py (line 55, before the
    \<open>try\<close>) raises, as \<open>stat\<close> does on a name that is too long or a directory that may not
    be searched;
  \<^item> \<open>tmpdir_fault fs p\<close>: \<open>tempfile.TemporaryDirectory()\<close> (line 59, before the \<open>try\<close>)
    raises;
  \<^item> \<open>tmpdir_cleanup_fault fs p\<close>: removing the temporary directory on leaving the
    \<open>with\<close> block raises;
  \<^item> \<open>handler_print_fault fs p\<close>: the \<open>print\<close> of the caught exception inside the
    handler (line 98) raises, as it does on text that standard output cannot encode;
  \<^item> \<open>loop_print_fault i n f\<close>: the \<open>print\<close> of the progress line in the loop of
    \<open>process_directory\<close> raises, for the same reason.
\<close>

text \<open>The output of a tool lands on its output path, unless a directory is in the way.\<close>

definition tool_write :: "path \<Rightarrow> string option \<Rightarrow> fs \<Rightarrow> fs" where
  "tool_write p out fs =
     (case out of
        None \<Rightarrow> fs
      | Some b \<Rightarrow> if lookup fs p = Some Dir then fs else AList.update p (File b) fs)"

text \<open>
  What a call of \<open>reencode_ogg\<close> does: it returns a boolean, or an exception escapes it.
\<close>

datatype outcome = Returned bool | Escaped

section \<open>fix\_ogg\_files.py: one stage, ffmpeg alone\<close>

text \<open>\<open>check_ffmpeg\<close>: run with \<open>check=True\<close>, so a non-zero exit counts as absent too.\<close>

definition check_ffmpeg :: "env \<Rightarrow> bool" where
  "check_ffmpeg E = (ffmpeg_probe E = Exited 0)"

text \<open>\<open>if temp_path.exists(): temp_path.unlink()\<close>\<close>

definition cleanup :: "env \<Rightarrow> path \<Rightarrow> fs \<Rightarrow> bool \<times> fs" where
  "cleanup E temp_path fs =
     (if path_exists fs temp_path then unlink (io_fault E) temp_path fs else (True, fs))"

text \<open>Lines 64 to 68: the backup is refreshed, an older one is removed first.\<close>

definition backup_step_files :: "env \<Rightarrow> path \<Rightarrow> path \<Rightarrow> bool \<Rightarrow> fs \<Rightarrow> bool \<times> fs" where
  "backup_step_files E input_path backup_path backup fs =
     (if backup then
        (case (if path_exists fs backup_path then unlink (io_fault E) backup_path fs
               else (True, fs)) of
           (False, fs1) \<Rightarrow> (False, fs1)
         | (True, fs1) \<Rightarrow> copy2 (io_fault E) input_path backup_path fs1)
      else (True, fs))"

text \<open>Lines 70 to 72: remove the original, then rename the temporary file onto it.\<close>

definition replace_step_files :: "env \<Rightarrow> path \<Rightarrow> path \<Rightarrow> fs \<Rightarrow> bool \<times> fs" where
  "replace_step_files E input_path temp_path fs =
     (case unlink (io_fault E) input_path fs of
        (False, fs1) \<Rightarrow> (False, fs1)
      | (True, fs1) \<Rightarrow> rename (io_fault E) temp_path input_path fs1)"

text \<open>
  The body of the \<open>try\<close>: \<open>Some b\<close> when it returns \<open>b\<close>, \<open>None\<close> when an exception
  leaves it for the handler.
\<close>

definition try_body_files ::
  "env \<Rightarrow> path \<Rightarrow> path \<Rightarrow> path \<Rightarrow> bool \<Rightarrow> fs \<Rightarrow> bool option \<times> fs" where
  "try_body_files E input_path temp_path backup_path backup fs =
     (case ffmpeg_encode E fs input_path temp_path of
        ToolRaised \<Rightarrow> (None, fs)
      | ToolExit returncode out \<Rightarrow>
          (let fs1 = tool_write temp_path out fs in
           if returncode \<noteq> 0 then
             (case cleanup E temp_path fs1 of
                (True, fs2) \<Rightarrow> (Some False, fs2)
              | (False, fs2) \<Rightarrow> (None, fs2))
           else
             (case backup_step_files E input_path backup_path backup fs1 of
                (False, fs2) \<Rightarrow> (None, fs2)
              | (True, fs2) \<Rightarrow>
                  (case replace_step_files E input_path temp_path fs2 of
                     (False, fs3) \<Rightarrow> (None, fs3)
                   | (True, fs3) \<Rightarrow> (Some True, fs3)))))"

text \<open>
  \<open>reencode_ogg\<close>. The two \<open>with_suffix\<close> calls stand before the \<open>try\<close>, and the
  handler's own \<open>unlink\<close> is not guarded by a second handler: an exception in either
  escapes the function.
\<close>

definition reencode_ogg_files :: "env \<Rightarrow> path \<Rightarrow> bool \<Rightarrow> fs \<Rightarrow> outcome \<times> fs" where
  "reencode_ogg_files E input_path backup fs =
     (if \<not> path_exists fs input_path then (Returned False, fs)
      else case (with_suffix input_path ''.tmp.ogg'', with_suffix input_path ''.ogg.bak'') of
             (Some temp_path, Some backup_path) \<Rightarrow>
               (case try_body_files E input_path temp_path backup_path backup fs of
                  (Some b, fs1) \<Rightarrow> (Returned b, fs1)
                | (None, fs1) \<Rightarrow>
                    (case cleanup E temp_path fs1 of
                       (True, fs2) \<Rightarrow> (Returned False, fs2)
                     | (False, fs2) \<Rightarrow> (Escaped, fs2)))
           | _ \<Rightarrow> (Escaped, fs))"

section \<open>fix\_ogg\_xray.py: two stages, ffmpeg then oggenc\<close>

text \<open>\<open>check_tools\<close>: run with \<open>check=False\<close>, only a missing executable counts.\<close>

definition check_tools :: "env \<Rightarrow> bool \<times> bool" where
  "check_tools E = (ffmpeg_probe E \<noteq> NotFound, oggenc_probe E \<noteq> NotFound)"

text \<open>
  Lines 84 to 91: an existing backup is kept; a failure of the copy is swallowed by the
  bare \<open>except\<close>. \<open>None\<close>: \<open>with_suffix\<close> raised, which the outer handler catches.
\<close>

definition backup_step_xray :: "env \<Rightarrow> path \<Rightarrow> bool \<Rightarrow> fs \<Rightarrow> fs option" where
  "backup_step_xray E input_path backup fs =
     (if backup then
        (case with_suffix input_path ''.ogg.bak'' of
           None \<Rightarrow> None
         | Some backup_path \<Rightarrow>
             if \<not> path_exists fs backup_path
             then Some (snd (copy2 (io_fault E) input_path backup_path fs))
             else Some fs)
      else Some fs)"

text \<open>
  The body of the \<open>try\<close> (lines 63 to 95): \<open>Some b\<close> when it returns \<open>b\<close>, \<open>None\<close> when
  an exception leaves it for the handler. The intermediate files \<open>temp.wav\<close> and
  \<open>temp.ogg\<close> live in the temporary directory; they are values here, and each exists
  exactly when its tool wrote it. The exit statuses are not looked at.
\<close>

definition try_body_xray :: "env \<Rightarrow> path \<Rightarrow> bool \<Rightarrow> fs \<Rightarrow> bool option \<times> fs" where
  "try_body_xray E input_path backup fs =
     (case ffmpeg_decode E fs input_path of
        ToolRaised \<Rightarrow> (None, fs)
      | ToolExit rc1 None \<Rightarrow> (Some False, fs)
      | ToolExit rc1 (Some wav) \<Rightarrow>
          (case oggenc E fs input_path wav of
             ToolRaised \<Rightarrow> (None, fs)
           | ToolExit rc2 None \<Rightarrow> (Some False, fs)
           | ToolExit rc2 (Some temp_ogg) \<Rightarrow>
               (case backup_step_xray E input_path backup fs of
                  None \<Rightarrow> (None, fs)
                | Some fs1 \<Rightarrow>
                    (case copy_bytes (io_fault E) temp_ogg ''temp.ogg'' input_path fs1 of
                       (True, fs2) \<Rightarrow> (Some True, fs2)
                     | (False, fs2) \<Rightarrow> (None, fs2)))))"

text \<open>
  \<open>reencode_ogg\<close>. The test \<open>input_path.exists()\<close> and the creation of the temporary
  directory stand before the \<open>try\<close>: an exception in either escapes the function. The
  handler prints the exception it caught and returns \<open>False\<close>; an exception in that
  \<open>print\<close> escapes. On every way out of the \<open>with\<close> block the temporary directory is
  removed, and an exception there escapes too, whatever the body had returned.
\<close>

definition reencode_ogg_xray :: "env \<Rightarrow> path \<Rightarrow> bool \<Rightarrow> fs \<Rightarrow> outcome \<times> fs" where
  "reencode_ogg_xray E input_path backup fs =
     (if stat_fault E fs input_path then (Escaped, fs)
      else if \<not> path_exists fs input_path then (Returned False, fs)
      else if tmpdir_fault E fs input_path then (Escaped, fs)
      else case try_body_xray E input_path backup fs of
             (r, fs1) \<Rightarrow>
               (let res = (case r of
                             Some b \<Rightarrow> Returned b
                           | None \<Rightarrow>
                               if handler_print_fault E fs1 input_path then Escaped
                               else Returned False)
                in if tmpdir_cleanup_fault E fs1 input_path then (Escaped, fs1)
                   else (res, fs1)))"

section \<open>Discovery and the batch loop\<close>

text \<open>
  \<open>directory.glob("*.ogg")\<close>: the entries directly inside \<open>directory\<close> whose name ends
  in \<open>.ogg\<close>, files and directories alike; \<open>rglob\<close>: the same at every depth below it.
\<close>

definition glob_ogg :: "fs \<Rightarrow> path \<Rightarrow> path list" where
  "glob_ogg fs directory =
     filter (\<lambda>f. f \<noteq> [] \<and> butlast f = directory \<and> suffix ''.ogg'' (path_name f)) (map fst fs)"

definition rglob_ogg :: "fs \<Rightarrow> path \<Rightarrow> path list" where
  "rglob_ogg fs directory =
     filter (\<lambda>f. strict_prefix directory f \<and> suffix ''.ogg'' (path_name f)) (map fst fs)"

definition find_ogg :: "fs \<Rightarrow> path \<Rightarrow> bool \<Rightarrow> path list" where
  "find_ogg fs directory recursive =
     (if recursive then rglob_ogg fs directory else glob_ogg fs directory)"

text \<open>The Target Set of fix\_ogg\_files.py (line 97).\<close>

definition ogg_files_files :: "fs \<Rightarrow> path \<Rightarrow> bool \<Rightarrow> path list" where
  "ogg_files_files fs directory recursive =
     filter (\<lambda>f. \<not> suffix ''.bak'' (path_name f) \<and> \<not> sublist ''.tmp.'' (path_name f))
       (find_ogg fs directory recursive)"

text \<open>The Target Set of fix\_ogg\_xray.py (line 114).\<close>

definition ogg_files_xray :: "fs \<Rightarrow> path \<Rightarrow> bool \<Rightarrow> path list" where
  "ogg_files_xray fs directory recursive =
     filter (\<lambda>f. \<not> sublist ''.bak'' (str_path f)) (find_ogg fs directory recursive)"

text \<open>
  What the scripts print, by kind of line. The lines that \<open>reencode_ogg\<close> prints about a
  failed file are left out.
\<close>

datatype msg =
    Banner
  | ToolMissing string
  | Target string bool
  | DirectoryNotFound path
  | NoFilesFound path
  | Found nat
  | Processing nat nat path
  | FileOK
  | Summary nat nat
  | BackupNote
  | Traceback

text \<open>
  The \<open>for\<close> loop of \<open>process_directory\<close>, the same in both scripts: \<open>i\<close> counts from 1,
  \<open>n\<close> is the number of files found. Each round prints its progress line and calls
  \<open>reencode_ogg\<close>; neither stands in a \<open>try\<close>, so an exception in the \<open>print\<close>
  (\<open>pf i n ogg_file\<close>) or one escaping \<open>reencode_ogg\<close> ends the loop (\<open>None\<close>); otherwise
  the counters are returned.
\<close>

fun process_loop ::
  "(nat \<Rightarrow> nat \<Rightarrow> path \<Rightarrow> bool) \<Rightarrow> (path \<Rightarrow> fs \<Rightarrow> outcome \<times> fs) \<Rightarrow> nat \<Rightarrow> nat \<Rightarrow> path list
     \<Rightarrow> nat \<Rightarrow> nat \<Rightarrow> msg list \<Rightarrow> fs \<Rightarrow> (nat \<times> nat) option \<times> msg list \<times> fs" where
  "process_loop pf reenc n i [] success failed out fs = (Some (success, failed), out, fs)"
| "process_loop pf reenc n i (ogg_file # rest) success failed out fs =
     (if pf i n ogg_file then (None, out, fs)
      else case reenc ogg_file fs of
        (Returned True, fs') \<Rightarrow>
          process_loop pf reenc n (i + 1) rest (success + 1) failed
            (out @ [Processing i n ogg_file, FileOK]) fs'
      | (Returned False, fs') \<Rightarrow>
          process_loop pf reenc n (i + 1) rest success (failed + 1)
            (out @ [Processing i n ogg_file]) fs'
      | (Escaped, fs') \<Rightarrow> (None, out @ [Processing i n ogg_file], fs'))"

text \<open>
  \<open>process_directory\<close>: whether it returned (\<open>False\<close>: an exception escaped), what it
  printed, and the state it left. The file list is taken once, before the loop.
\<close>

definition process_directory ::
  "(nat \<Rightarrow> nat \<Rightarrow> path \<Rightarrow> bool) \<Rightarrow> (fs \<Rightarrow> path \<Rightarrow> bool \<Rightarrow> path list)
     \<Rightarrow> (path \<Rightarrow> fs \<Rightarrow> outcome \<times> fs) \<Rightarrow> path \<Rightarrow> bool \<Rightarrow> fs \<Rightarrow> bool \<times> msg list \<times> fs" where
  "process_directory pf discover reenc directory recursive fs =
     (if \<not> path_exists fs directory then (True, [DirectoryNotFound directory], fs)
      else let ogg_files = discover fs directory recursive in
        if ogg_files = [] then (True, [NoFilesFound directory], fs)
        else (case process_loop pf reenc (length ogg_files) 1 ogg_files 0 0
                     [Found (length ogg_files)] fs of
                (None, out, fs') \<Rightarrow> (False, out, fs')
              | (Some (success, failed), out, fs') \<Rightarrow>
                  (True,
                   out @ [Summary success failed] @ (if 0 < success then [BackupNote] else []),
                   fs')))"

definition process_directory_files :: "env \<Rightarrow> path \<Rightarrow> bool \<Rightarrow> fs \<Rightarrow> bool \<times> msg list \<times> fs" where
  "process_directory_files E =
     process_directory (loop_print_fault E) ogg_files_files (\<lambda>f. reencode_ogg_files E f True)"

definition process_directory_xray :: "env \<Rightarrow> path \<Rightarrow> bool \<Rightarrow> fs \<Rightarrow> bool \<times> msg list \<times> fs" where
  "process_directory_xray E =
     process_directory (loop_print_fault E) ogg_files_xray (\<lambda>f. reencode_ogg_xray E f True)"

section \<open>The entry points\<close>

text \<open>
  \<open>main\<close> yields the exit status of the process, what was printed, and the final state.
  \<open>sys.exit(1)\<close> gives status 1, falling off the end gives 0, and an uncaught exception
  makes the interpreter print a traceback and exit with status 1.
\<close>

definition parse_args :: "string list \<Rightarrow> bool \<times> string" where
  "parse_args argv =
     (let recursive = (''-r'' \<in> set argv);
          args = filter (\<lambda>a. a \<noteq> ''-r'') (tl argv)
      in (recursive, if args \<noteq> [] then hd args else ''.''))"

definition run_directory ::
  "(path \<Rightarrow> bool \<Rightarrow> fs \<Rightarrow> bool \<times> msg list \<times> fs) \<Rightarrow> msg list \<Rightarrow> string list \<Rightarrow> fs
     \<Rightarrow> int \<times> msg list \<times> fs" where
  "run_directory pd banner argv fs =
     (case parse_args argv of
        (recursive, directory) \<Rightarrow>
          (case pd (Path directory) recursive fs of
             (True, out, fs') \<Rightarrow> (0, banner @ [Target directory recursive] @ out, fs')
           | (False, out, fs') \<Rightarrow>
               (1, banner @ [Target directory recursive] @ out @ [Traceback], fs')))"

definition main_files :: "env \<Rightarrow> string list \<Rightarrow> fs \<Rightarrow> int \<times> msg list \<times> fs" where
  "main_files E argv fs =
     (if \<not> check_ffmpeg E then (1, [Banner, ToolMissing ''ffmpeg''], fs)
      else run_directory (process_directory_files E) [Banner] argv fs)"

definition main_xray :: "env \<Rightarrow> string list \<Rightarrow> fs \<Rightarrow> int \<times> msg list \<times> fs" where
  "main_xray E argv fs =
     (case check_tools E of
        (has_ffmpeg, has_oggenc) \<Rightarrow>
          (let out = [Banner] @ (if \<not> has_ffmpeg then [ToolMissing ''ffmpeg''] else [])
                              @ (if \<not> has_oggenc then [ToolMissing ''oggenc''] else [])
           in if \<not> has_ffmpeg \<or> \<not> has_oggenc then (1, out, fs)
              else run_directory (process_directory_xray E) out argv fs))"

text \<open>The directory that \<open>main\<close> hands to \<open>process_directory\<close>.\<close>

definition target_directory :: "string list \<Rightarrow> path" where
  "target_directory argv = Path (snd (parse_args argv))"

section \<open>Notions used in the statements\<close>

text \<open>
  \<open>unchanged_off ps fs fs'\<close>: every path that is not one of \<open>ps\<close> and does not lie below
  one of them holds in \<open>fs'\<close> what it held in \<open>fs\<close>.
\<close>

definition unchanged_off :: "path list \<Rightarrow> fs \<Rightarrow> fs \<Rightarrow> bool" where
  "unchanged_off ps fs fs' = (\<forall>q. (\<forall>p \<in> set ps. \<not> prefix p q) \<longrightarrow> lookup fs' q = lookup fs q)"

text \<open>The files taken up for processing, read off the \<open>Processing\<close> lines in order.\<close>

fun processed :: "msg list \<Rightarrow> path list" where
  "processed [] = []"
| "processed (Processing i n f # ms) = f # processed ms"
| "processed (m # ms) = processed ms"

section \<open>Example environments and file systems\<close>

text \<open>Both tools present and succeeding, no fault and no escaping exception anywhere.\<close>

definition env_ok :: env where
  "env_ok =
     \<lparr> ffmpeg_probe = Exited 0, oggenc_probe = Exited 0,
       ffmpeg_encode = (\<lambda>fs i t. ToolExit 0 (Some ''new'')),
       ffmpeg_decode = (\<lambda>fs i. ToolExit 0 (Some ''wav'')),
       oggenc = (\<lambda>fs i w. ToolExit 0 (Some ''new'')),
       io_fault = (\<lambda>fs op. NoFault),
       stat_fault = (\<lambda>fs p. False), tmpdir_fault = (\<lambda>fs p. False),
       tmpdir_cleanup_fault = (\<lambda>fs p. False), handler_print_fault = (\<lambda>fs p. False),
       loop_print_fault = (\<lambda>i n f. False) \<rparr>"

text \<open>The directory of the example scenario: \<open>a.ogg\<close>, \<open>b.ogg\<close>, \<open>c.wav\<close>.\<close>

definition fs_abc :: fs where
  "fs_abc = [([''a.ogg''], File ''old''), ([''b.ogg''], File ''bb''), ([''c.wav''], File ''cc'')]"

text \<open>The backup copy is refused; everything else works.\<close>

definition env_backup_denied :: env where
  "env_backup_denied =
     env_ok \<lparr> io_fault := (\<lambda>fs op. if op = CopyTo [''a.ogg.bak''] then Denied else NoFault) \<rparr>"

text \<open>Next to \<open>a.ogg\<close> lies an unrelated file with the backup extension.\<close>

definition fs_stale :: fs where
  "fs_stale = [([''a.ogg''], File ''old''), ([''x.bak''], File ''xx'')]"

text \<open>The backup copy of \<open>b.ogg\<close> is refused; everything else works.\<close>

definition env_no_backup_b :: env where
  "env_no_backup_b =
     env_ok \<lparr> io_fault := (\<lambda>fs op. if op = CopyTo [''b.ogg.bak''] then Denied else NoFault) \<rparr>"



text \<open>ffmpeg exits with status 0 but writes no output file.\<close>

definition env_silent :: env where
  "env_silent = env_ok \<lparr> ffmpeg_encode := (\<lambda>fs i t. ToolExit 0 None) \<rparr>"

text \<open>Both stages exit with status 1, each having written an output file.\<close>

definition env_status_one :: env where
  "env_status_one =
     env_ok \<lparr> ffmpeg_decode := (\<lambda>fs i. ToolExit 1 (Some ''wav'')),
              oggenc := (\<lambda>fs i w. ToolExit 1 (Some ''part'')) \<rparr>"

text \<open>ffmpeg exits with status 1, leaving a partial output file.\<close>

definition env_ffmpeg_fails :: env where
  "env_ffmpeg_fails = env_ok \<lparr> ffmpeg_encode := (\<lambda>fs i t. ToolExit 1 (Some ''part'')) \<rparr>"

text \<open>The decoder writes no output file.\<close>

definition env_no_wav :: env where
  "env_no_wav = env_ok \<lparr> ffmpeg_decode := (\<lambda>fs i. ToolExit 1 None) \<rparr>"

text \<open>ffmpeg cannot write its output and exits with status 1.\<close>

definition env_cannot_write :: env where
  "env_cannot_write = env_ok \<lparr> ffmpeg_encode := (\<lambda>fs i t. ToolExit 1 None) \<rparr>"


text \<open>Next to \<open>a.ogg\<close> and \<open>b.ogg\<close> lies a directory named \<open>a.tmp.ogg\<close>.\<close>

definition fs_tmp_dir :: fs where
  "fs_tmp_dir = [([''a.ogg''], File ''old''), ([''a.tmp.ogg''], Dir), ([''b.ogg''], File ''bb'')]"


text \<open>A directory with a source file, its backup, and a file carrying the temporary marker.\<close>

definition fs_artefacts :: fs where
  "fs_artefacts =
     [([''a.ogg''], File ''new''), ([''a.ogg.bak''], File ''old''), ([''c.tmp.ogg''], File ''tmp'')]"

text \<open>The example scenario inside a directory whose name contains \<open>.bak\<close>.\<close>

definition fs_bak_dir :: fs where
  "fs_bak_dir =
     [([''music.bak''], Dir),
      ([''music.bak'', ''a.ogg''], File ''aa''),
      ([''music.bak'', ''b.ogg''], File ''bb''),
      ([''music.bak'', ''c.wav''], File ''cc'')]"

section \<open>Facts about paths\<close>

lemma rfind_bounds: "rfind s c < int (length s) \<and> -1 \<le> rfind s c"
  by (induction s) (auto simp: Let_def)

lemma rfind_found: "0 \<le> rfind s c \<Longrightarrow> s ! nat (rfind s c) = c \<and> c \<notin> set (drop (Suc (nat (rfind s c))) s)"
proof (induction s)
  case Nil
  then show ?case by simp
next
  case (Cons x xs)
  show ?case
  proof (cases "0 \<le> rfind xs c")
    case True
    then have "nat (rfind xs c + 1) = Suc (nat (rfind xs c))" by simp
    with True Cons.IH show ?thesis by (simp add: Let_def)
  next
    case False
    with Cons.prems have xc: "x = c" by (simp add: Let_def split: if_splits)
    from False have "c \<notin> set xs"
      by (induction xs) (auto simp: Let_def split: if_splits)
    with False xc show ?thesis by (simp add: Let_def)
  qed
qed

lemma rfind_absent: "c \<notin> set s \<Longrightarrow> rfind s c = -1"
  by (induction s) (auto simp: Let_def)

lemma rfind_append:
  "rfind (xs @ ys) c = (if 0 \<le> rfind ys c then int (length xs) + rfind ys c else rfind xs c)"
proof (induction xs)
  case Nil
  show ?case using rfind_bounds [of ys c] by auto
next
  case (Cons x xs)
  then show ?case by (auto simp: Let_def)
qed

lemma path_suffix_shape:
  assumes "path_suffix nm \<noteq> []"
  shows "\<exists>stem rest. nm = stem @ CHR ''.'' # rest \<and> stem \<noteq> [] \<and> rest \<noteq> []
           \<and> CHR ''.'' \<notin> set rest \<and> path_suffix nm = CHR ''.'' # rest"
proof -
  let ?i = "rfind nm CHR ''.''"
  from assms have i: "0 < ?i" "?i < int (length nm) - 1" and ps: "path_suffix nm = drop (nat ?i) nm"
    by (auto simp: path_suffix_def Let_def split: if_splits)
  from i rfind_found [of nm "CHR ''.''"]
  have at: "nm ! nat ?i = CHR ''.''" and no: "CHR ''.'' \<notin> set (drop (Suc (nat ?i)) nm)"
    by auto
  from i have lt: "nat ?i < length nm" by linarith
  have "nm = take (nat ?i) nm @ nm ! nat ?i # drop (Suc (nat ?i)) nm"
    using lt by (simp add: id_take_nth_drop)
  moreover have "take (nat ?i) nm \<noteq> []" using i lt by auto
  moreover have "drop (Suc (nat ?i)) nm \<noteq> []" using i by auto
  moreover have "path_suffix nm = CHR ''.'' # drop (Suc (nat ?i)) nm"
    using ps lt at Cons_nth_drop_Suc [of "nat ?i" nm] by simp
  ultimately show ?thesis using at no by metis
qed

lemma with_suffix_shape:
  assumes "with_suffix p sfx = Some q"
  shows "p \<noteq> [] \<and> (\<exists>stem. stem \<noteq> [] \<and> q = butlast p @ [stem @ sfx] \<and>
           (last p = stem \<or> (\<exists>rest. rest \<noteq> [] \<and> CHR ''.'' \<notin> set rest \<and> last p = stem @ CHR ''.'' # rest)))"
proof -
  from assms have ne: "p \<noteq> []" "last p \<noteq> []"
    by (auto simp: with_suffix_def path_name_def Let_def split: if_splits)
  show ?thesis
  proof (cases "path_suffix (last p) = []")
    case True
    with assms ne show ?thesis
      by (auto simp: with_suffix_def path_name_def Let_def)
  next
    case False
    from path_suffix_shape [OF False] obtain stem rest where
      s: "last p = stem @ CHR ''.'' # rest" "stem \<noteq> []" "rest \<noteq> []" "CHR ''.'' \<notin> set rest"
         "path_suffix (last p) = CHR ''.'' # rest"
      by blast
    with assms ne False have "q = butlast p @ [stem @ sfx]"
      by (auto simp: with_suffix_def path_name_def Let_def)
    with s ne show ?thesis by blast
  qed
qed

lemma with_suffix_sibling:
  "with_suffix p sfx = Some q \<Longrightarrow> q \<noteq> [] \<and> butlast q = butlast p \<and> length q = length p \<and> suffix sfx (path_name q)"
  by (drule with_suffix_shape) (auto simp: path_name_def suffix_def)


lemma with_suffix_bak_neq: "with_suffix p ''.ogg.bak'' \<noteq> Some p"
proof
  assume a: "with_suffix p ''.ogg.bak'' = Some p"
  from with_suffix_shape [OF a] obtain stem where
    s: "p \<noteq> []" "stem \<noteq> []" "p = butlast p @ [stem @ ''.ogg.bak'']"
    "last p = stem \<or> (\<exists>rest. rest \<noteq> [] \<and> CHR ''.'' \<notin> set rest \<and> last p = stem @ CHR ''.'' # rest)"
    by blast
  from s(3) have "last p = stem @ ''.ogg.bak''" by (metis last_snoc)
  with s(4) show False by auto
qed


lemma path_suffix_ogg: "stem \<noteq> [] \<Longrightarrow> path_suffix (stem @ ''.ogg'') = ''.ogg''"
  by (simp add: path_suffix_def rfind_append Let_def)

lemma with_suffix_ogg:
  "stem \<noteq> [] \<Longrightarrow> with_suffix (dir @ [stem @ ''.ogg'']) sfx = Some (dir @ [stem @ sfx])"
  by (simp add: with_suffix_def path_name_def path_suffix_ogg Let_def)

lemma not_bak_tmp: "\<not> suffix ''.bak'' (stem @ ''.tmp.ogg'')"
  by (simp add: suffix_to_prefix)

section \<open>Facts about the primitives\<close>

lemma lookup_update:
  "p \<noteq> [] \<Longrightarrow> lookup (AList.update p v fs) q = (if q = p then Some v else lookup fs q)"
  by (simp add: lookup_def update_conv')

lemma lookup_delete:
  "p \<noteq> [] \<Longrightarrow> lookup (AList.delete p fs) q = (if q = p then None else lookup fs q)"
  by (simp add: lookup_def delete_conv')

lemma lookup_file_nonempty: "lookup fs p = Some (File b) \<Longrightarrow> p \<noteq> []"
  by (auto simp: lookup_def)

lemma lookup_not_dir_nonempty: "lookup fs p \<noteq> Some Dir \<Longrightarrow> p \<noteq> []"
  by (auto simp: lookup_def)

lemma lookup_None_nonempty: "lookup fs p = None \<Longrightarrow> p \<noteq> []"
  by (auto simp: lookup_def)

lemma unchanged_off_refl: "unchanged_off ps fs fs"
  by (simp add: unchanged_off_def)

lemma unchanged_off_trans:
  "unchanged_off ps fs fs' \<Longrightarrow> unchanged_off ps fs' fs'' \<Longrightarrow> unchanged_off ps fs fs''"
  by (simp add: unchanged_off_def)

lemma unchanged_off_mono:
  "unchanged_off ps fs fs' \<Longrightarrow> set ps \<subseteq> set ps' \<Longrightarrow> unchanged_off ps' fs fs'"
  by (auto simp: unchanged_off_def)

lemma unlink_True:
  "unlink flt p fs = (True, fs') \<Longrightarrow>
     fs' = AList.delete p fs \<and> (\<exists>b. lookup fs p = Some (File b)) \<and> flt fs (Unlink p) = NoFault"
  by (auto simp: unlink_def split: option.splits node.splits if_splits)

lemma unlink_False: "unlink flt p fs = (False, fs') \<Longrightarrow> fs' = fs"
  by (auto simp: unlink_def split: option.splits node.splits if_splits)

lemma unlink_frame: "unlink flt p fs = (ok, fs') \<Longrightarrow> unchanged_off [p] fs fs'"
proof (cases ok)
  case True
  assume "unlink flt p fs = (ok, fs')"
  with True unlink_True [of flt p fs fs']
  obtain b where "fs' = AList.delete p fs" "lookup fs p = Some (File b)" by auto
  then show ?thesis
    using lookup_file_nonempty [of fs p b] by (auto simp: unchanged_off_def lookup_delete)
next
  case False
  assume "unlink flt p fs = (ok, fs')"
  with False unlink_False [of flt p fs fs'] show ?thesis by (simp add: unchanged_off_refl)
qed

lemma copy_bytes_file:
  assumes "copy_bytes flt b sn dst fs = (ok, fs')" "lookup fs dst \<noteq> Some Dir"
  shows "(ok \<and> flt fs (CopyTo dst) = NoFault \<and> fs' = AList.update dst (File b) fs)
       \<or> (\<not> ok \<and> flt fs (CopyTo dst) = Denied \<and> fs' = fs)
       \<or> (\<not> ok \<and> (\<exists>n. flt fs (CopyTo dst) = Broken n \<and> fs' = AList.update dst (File (take n b)) fs))"
  using assms by (auto simp: copy_bytes_def Let_def split: fault.splits if_splits)

lemma copy_bytes_frame:
  assumes "copy_bytes flt b sn dst fs = (ok, fs')"
  shows "unchanged_off [dst] fs fs'"
proof -
  let ?target = "if lookup fs dst = Some Dir then dst @ [sn] else dst"
  have ne: "?target \<noteq> []" using lookup_not_dir_nonempty [of fs dst] by auto
  have pre: "prefix dst ?target" by simp
  from assms have "fs' = fs \<or> (\<exists>c. fs' = AList.update ?target (File c) fs)"
    by (auto simp: copy_bytes_def Let_def split: fault.splits if_splits)
  then show ?thesis
  proof
    assume "fs' = fs"
    then show ?thesis by (simp add: unchanged_off_refl)
  next
    assume "\<exists>c. fs' = AList.update ?target (File c) fs"
    then obtain c where c: "fs' = AList.update ?target (File c) fs" ..
    show ?thesis
      unfolding unchanged_off_def
    proof (intro allI impI)
      fix q
      assume "\<forall>p \<in> set [dst]. \<not> prefix p q"
      then have "q \<noteq> ?target" using pre by auto
      with c lookup_update [OF ne, of "File c" fs q] show "lookup fs' q = lookup fs q" by simp
    qed
  qed
qed

lemma copy2_frame: "copy2 flt src dst fs = (ok, fs') \<Longrightarrow> unchanged_off [dst] fs fs'"
  by (auto simp: copy2_def unchanged_off_refl dest: copy_bytes_frame
      split: option.splits node.splits)

lemma copy2_file:
  assumes "copy2 flt src dst fs = (ok, fs')" "lookup fs src = Some (File b)"
  shows "copy_bytes flt b (path_name src) dst fs = (ok, fs')"
  using assms by (simp add: copy2_def)

lemma map_of_rebase:
  assumes "\<not> prefix src q" "\<not> prefix dst q"
  shows "map_of (map (\<lambda>(k, v). (rebase src dst k, v)) al) q = map_of al q"
proof (induction al)
  case Nil
  show ?case by simp
next
  case (Cons kv al)
  obtain k v where kv: "kv = (k, v)" by (cases kv)
  have "rebase src dst k = q \<longleftrightarrow> k = q"
    using assms by (auto simp: rebase_def)
  with Cons kv show ?case by (cases "k = q") auto
qed

lemma rename_False: "rename flt src dst fs = (False, fs') \<Longrightarrow> fs' = fs"
  by (auto simp: rename_def split: option.splits node.splits if_splits)

lemma rename_True_file:
  "rename flt src dst fs = (True, fs') \<Longrightarrow> lookup fs src = Some (File b) \<Longrightarrow>
     fs' = AList.update dst (File b) (AList.delete src fs) \<and> lookup fs dst \<noteq> Some Dir"
  by (auto simp: rename_def split: option.splits node.splits if_splits)

lemma rename_True_exists: "rename flt src dst fs = (True, fs') \<Longrightarrow> lookup fs src \<noteq> None"
  by (auto simp: rename_def split: option.splits node.splits if_splits)

lemma rename_frame:
  assumes "rename flt src dst fs = (ok, fs')"
  shows "unchanged_off [src, dst] fs fs'"
proof (cases ok)
  case False
  with assms rename_False [of flt src dst fs fs'] show ?thesis by (simp add: unchanged_off_refl)
next
  case True
  with assms rename_True_exists [of flt src dst fs fs'] obtain n where n: "lookup fs src = Some n"
    by auto
  show ?thesis
  proof (cases n)
    case (File b)
    with n assms True rename_True_file [of flt src dst fs fs' b]
    have fs': "fs' = AList.update dst (File b) (AList.delete src fs)"
      and "lookup fs dst \<noteq> Some Dir" by auto
    then have "dst \<noteq> []" "src \<noteq> []"
      using lookup_not_dir_nonempty [of fs dst] lookup_file_nonempty [of fs src b] n File by auto
    with fs' show ?thesis by (auto simp: unchanged_off_def lookup_update lookup_delete)
  next
    case Dir
    with n assms True have fs': "fs' = map (\<lambda>(q, n). (rebase src dst q, n)) fs"
      by (auto simp: rename_def split: if_splits)
    show ?thesis
      unfolding unchanged_off_def fs'
      by (auto simp: lookup_def map_of_rebase)
  qed
qed

lemma tool_write_frame: "unchanged_off [p] fs (tool_write p out fs)"
  using lookup_not_dir_nonempty [of fs p]
  by (auto simp: tool_write_def unchanged_off_def lookup_update split: option.splits)

lemma tool_write_Some:
  "lookup fs p \<noteq> Some Dir \<Longrightarrow>
     lookup (tool_write p (Some b) fs) q = (if q = p then Some (File b) else lookup fs q)"
  using lookup_not_dir_nonempty [of fs p] by (simp add: tool_write_def lookup_update)

lemma tool_write_other: "q \<noteq> p \<Longrightarrow> lookup (tool_write p out fs) q = lookup fs q"
  using lookup_not_dir_nonempty [of fs p]
  by (auto simp: tool_write_def lookup_update split: option.splits)

lemma prefix_same_length: "length p = length q \<Longrightarrow> prefix p q \<longleftrightarrow> p = q"
  by (auto simp: prefix_def)

lemma unchanged_off_sibling:
  assumes "unchanged_off ps fs fs'" "\<forall>p \<in> set ps. length p = length q \<and> p \<noteq> q"
  shows "lookup fs' q = lookup fs q"
  using assms unfolding unchanged_off_def by (metis prefix_same_length)

section \<open>What a call of reencode\_ogg can touch\<close>

lemma unchanged_off_trans_mono:
  "unchanged_off ps fs fs' \<Longrightarrow> unchanged_off qs fs' fs'' \<Longrightarrow> set ps \<subseteq> set rs \<Longrightarrow>
   set qs \<subseteq> set rs \<Longrightarrow> unchanged_off rs fs fs''"
  by (meson unchanged_off_mono unchanged_off_trans)

lemma cleanup_frame: "cleanup E t fs = (ok, fs') \<Longrightarrow> unchanged_off [t] fs fs'"
  by (auto simp: cleanup_def unchanged_off_refl dest: unlink_frame split: if_splits)

lemma backup_step_files_frame:
  assumes "backup_step_files E i b backup fs = (ok, fs')"
  shows "unchanged_off [b] fs fs'"
proof (cases backup)
  case False
  with assms show ?thesis by (simp add: backup_step_files_def unchanged_off_refl)
next
  case True
  obtain ok1 fs1 where u: "(if path_exists fs b then unlink (io_fault E) b fs else (True, fs)) = (ok1, fs1)"
    by (cases "if path_exists fs b then unlink (io_fault E) b fs else (True, fs)")
  then have f1: "unchanged_off [b] fs fs1"
    by (auto simp: unchanged_off_refl dest: unlink_frame split: if_splits)
  show ?thesis
  proof (cases ok1)
    case False
    with assms True u have "fs' = fs1" by (simp add: backup_step_files_def)
    with f1 show ?thesis by simp
  next
    case ok: True
    with assms True u have "copy2 (io_fault E) i b fs1 = (ok, fs')"
      by (simp add: backup_step_files_def)
    from unchanged_off_trans [OF f1 copy2_frame [OF this]] show ?thesis .
  qed
qed

lemma replace_step_files_frame:
  assumes "replace_step_files E i t fs = (ok, fs')"
  shows "unchanged_off [i, t] fs fs'"
proof -
  obtain ok1 fs1 where u: "unlink (io_fault E) i fs = (ok1, fs1)"
    by (cases "unlink (io_fault E) i fs")
  show ?thesis
  proof (cases ok1)
    case False
    with assms u have "fs' = fs1" by (simp add: replace_step_files_def)
    with unlink_frame [OF u] show ?thesis by (auto intro: unchanged_off_mono)
  next
    case True
    with assms u have "rename (io_fault E) t i fs1 = (ok, fs')"
      by (simp add: replace_step_files_def)
    from unchanged_off_trans_mono [OF unlink_frame [OF u] rename_frame [OF this], of "[i, t]"]
    show ?thesis by simp
  qed
qed

lemma try_body_files_frame:
  assumes "try_body_files E i t b backup fs = (r, fs')"
  shows "unchanged_off [i, t, b] fs fs'"
proof (cases "ffmpeg_encode E fs i t")
  case ToolRaised
  with assms show ?thesis by (simp add: try_body_files_def unchanged_off_refl)
next
  case (ToolExit rc out)
  let ?fs1 = "tool_write t out fs"
  have f1: "unchanged_off [t] fs ?fs1" by (rule tool_write_frame)
  show ?thesis
  proof (cases "rc = 0")
    case False
    obtain ok2 fs2 where c: "cleanup E t ?fs1 = (ok2, fs2)" by (cases "cleanup E t ?fs1")
    with assms ToolExit False have "fs' = fs2"
      by (cases ok2) (simp_all add: try_body_files_def)
    with unchanged_off_trans [OF f1 cleanup_frame [OF c]] show ?thesis
      by (auto intro: unchanged_off_mono)
  next
    case True
    obtain ok2 fs2 where bs: "backup_step_files E i b backup ?fs1 = (ok2, fs2)"
      by (cases "backup_step_files E i b backup ?fs1")
    have f2: "unchanged_off [i, t, b] fs fs2"
      using unchanged_off_trans_mono [OF f1 backup_step_files_frame [OF bs], of "[i, t, b]"] by simp
    show ?thesis
    proof (cases ok2)
      case False
      with assms ToolExit True bs have "fs' = fs2" by (simp add: try_body_files_def)
      with f2 show ?thesis by simp
    next
      case ok: True
      obtain ok3 fs3 where rs: "replace_step_files E i t fs2 = (ok3, fs3)"
        by (cases "replace_step_files E i t fs2")
      with assms ToolExit True bs ok have "fs' = fs3"
        by (cases ok3) (simp_all add: try_body_files_def)
      with unchanged_off_trans_mono [OF f2 replace_step_files_frame [OF rs], of "[i, t, b]"]
      show ?thesis by simp
    qed
  qed
qed

lemma reencode_ogg_files_frame:
  assumes "reencode_ogg_files E i backup fs = (r, fs')"
    and "with_suffix i ''.tmp.ogg'' = Some t" and "with_suffix i ''.ogg.bak'' = Some b"
  shows "unchanged_off [i, t, b] fs fs'"
proof (cases "path_exists fs i")
  case False
  with assms show ?thesis by (simp add: reencode_ogg_files_def unchanged_off_refl)
next
  case True
  obtain r1 fs1 where tb: "try_body_files E i t b backup fs = (r1, fs1)"
    by (cases "try_body_files E i t b backup fs")
  note f1 = try_body_files_frame [OF tb]
  show ?thesis
  proof (cases r1)
    case (Some x)
    with assms True tb have "fs' = fs1" by (simp add: reencode_ogg_files_def)
    with f1 show ?thesis by simp
  next
    case None
    obtain ok2 fs2 where c: "cleanup E t fs1 = (ok2, fs2)" by (cases "cleanup E t fs1")
    with assms True tb None have "fs' = fs2"
      by (cases ok2) (simp_all add: reencode_ogg_files_def)
    with unchanged_off_trans_mono [OF f1 cleanup_frame [OF c], of "[i, t, b]"]
    show ?thesis by simp
  qed
qed

lemma reencode_ogg_files_no_name:
  "with_suffix i ''.ogg.bak'' = None \<Longrightarrow> snd (reencode_ogg_files E i backup fs) = fs"
  by (simp add: reencode_ogg_files_def split: option.splits)

lemma with_suffix_None_iff: "with_suffix p sfx = None \<longleftrightarrow> path_name p = []"
  by (simp add: with_suffix_def Let_def)

lemma backup_step_xray_frame:
  "backup_step_xray E i backup fs = Some fs' \<Longrightarrow> with_suffix i ''.ogg.bak'' = Some b \<Longrightarrow>
   unchanged_off [b] fs fs'"
  by (cases "copy2 (io_fault E) i b fs")
     (auto simp: backup_step_xray_def unchanged_off_refl dest: copy2_frame split: if_splits)

lemma try_body_xray_cases:
  assumes "try_body_xray E i backup fs = (r, fs')"
  shows "(r \<noteq> Some True \<and> fs' = fs)
       \<or> (\<exists>rc1 wav rc2 ogg fs1 ok.
             ffmpeg_decode E fs i = ToolExit rc1 (Some wav)
           \<and> oggenc E fs i wav = ToolExit rc2 (Some ogg)
           \<and> backup_step_xray E i backup fs = Some fs1
           \<and> copy_bytes (io_fault E) ogg ''temp.ogg'' i fs1 = (ok, fs')
           \<and> r = (if ok then Some True else None))"
proof (cases "ffmpeg_decode E fs i")
  case ToolRaised
  with assms show ?thesis by (auto simp: try_body_xray_def)
next
  case d: (ToolExit rc1 o1)
  show ?thesis
  proof (cases o1)
    case None
    with assms d show ?thesis by (auto simp: try_body_xray_def)
  next
    case w: (Some wav)
    show ?thesis
    proof (cases "oggenc E fs i wav")
      case ToolRaised
      with assms d w show ?thesis by (auto simp: try_body_xray_def)
    next
      case e: (ToolExit rc2 o2)
      show ?thesis
      proof (cases o2)
        case None
        with assms d w e show ?thesis by (auto simp: try_body_xray_def)
      next
        case g: (Some ogg)
        show ?thesis
        proof (cases "backup_step_xray E i backup fs")
          case None
          with assms d w e g show ?thesis by (auto simp: try_body_xray_def)
        next
          case b: (Some fs1)
          obtain ok fs2 where c: "copy_bytes (io_fault E) ogg ''temp.ogg'' i fs1 = (ok, fs2)"
            by (cases "copy_bytes (io_fault E) ogg ''temp.ogg'' i fs1")
          with assms d w e g b have "r = (if ok then Some True else None) \<and> fs' = fs2"
            by (cases ok) (auto simp: try_body_xray_def)
          with d w e g b c show ?thesis by blast
        qed
      qed
    qed
  qed
qed

lemma reencode_ogg_xray_body:
  assumes "reencode_ogg_xray E i backup fs = (r, fs')"
  shows "(r \<noteq> Returned True \<and> fs' = fs)
       \<or> (\<exists>r1. path_exists fs i \<and> \<not> stat_fault E fs i \<and> \<not> tmpdir_fault E fs i
             \<and> try_body_xray E i backup fs = (r1, fs')
             \<and> (r \<noteq> Escaped \<longrightarrow> \<not> tmpdir_cleanup_fault E fs' i
                  \<and> r = (case r1 of Some b \<Rightarrow> Returned b | None \<Rightarrow> Returned False)))"
proof (cases "stat_fault E fs i \<or> \<not> path_exists fs i \<or> tmpdir_fault E fs i")
  case True
  with assms show ?thesis by (auto simp: reencode_ogg_xray_def split: if_splits)
next
  case False
  obtain r1 fs1 where t: "try_body_xray E i backup fs = (r1, fs1)"
    by (cases "try_body_xray E i backup fs")
  with assms False have "fs' = fs1"
    by (auto simp: reencode_ogg_xray_def Let_def split: if_splits)
  moreover from assms False t
  have "r \<noteq> Escaped \<longrightarrow> \<not> tmpdir_cleanup_fault E fs1 i
          \<and> r = (case r1 of Some b \<Rightarrow> Returned b | None \<Rightarrow> Returned False)"
    by (cases r1) (auto simp: reencode_ogg_xray_def Let_def split: if_splits)
  ultimately show ?thesis using False t by blast
qed

lemma reencode_ogg_xray_cases:
  assumes "reencode_ogg_xray E i backup fs = (r, fs')"
  shows "(r \<noteq> Returned True \<and> fs' = fs)
       \<or> (\<exists>rc1 wav rc2 ogg fs1 ok.
             path_exists fs i
           \<and> ffmpeg_decode E fs i = ToolExit rc1 (Some wav)
           \<and> oggenc E fs i wav = ToolExit rc2 (Some ogg)
           \<and> backup_step_xray E i backup fs = Some fs1
           \<and> copy_bytes (io_fault E) ogg ''temp.ogg'' i fs1 = (ok, fs')
           \<and> r \<noteq> Returned (\<not> ok))"
  using reencode_ogg_xray_body [OF assms]
proof (elim disjE exE conjE)
  assume "r \<noteq> Returned True" "fs' = fs"
  then show ?thesis by simp
next
  fix r1
  assume ex: "path_exists fs i" and t: "try_body_xray E i backup fs = (r1, fs')"
    and r: "r \<noteq> Escaped \<longrightarrow> \<not> tmpdir_cleanup_fault E fs' i
              \<and> r = (case r1 of Some b \<Rightarrow> Returned b | None \<Rightarrow> Returned False)"
  from try_body_xray_cases [OF t] show ?thesis
  proof (elim disjE exE conjE)
    assume "r1 \<noteq> Some True" "fs' = fs"
    with r show ?thesis by (cases r1) auto
  next
    fix rc1 wav rc2 ogg fs1 ok
    assume "ffmpeg_decode E fs i = ToolExit rc1 (Some wav)"
      "oggenc E fs i wav = ToolExit rc2 (Some ogg)"
      "backup_step_xray E i backup fs = Some fs1"
      "copy_bytes (io_fault E) ogg ''temp.ogg'' i fs1 = (ok, fs')"
      "r1 = (if ok then Some True else None)"
    moreover from this(5) r have "r \<noteq> Returned (\<not> ok)" by (cases ok) auto
    ultimately show ?thesis using ex by blast
  qed
qed

lemma reencode_ogg_xray_frame:
  assumes "reencode_ogg_xray E i backup fs = (r, fs')" and "with_suffix i ''.ogg.bak'' = Some b"
  shows "unchanged_off [i, b] fs fs'"
  using reencode_ogg_xray_cases [OF assms(1)]
proof (elim disjE exE conjE)
  assume "fs' = fs"
  then show ?thesis by (simp add: unchanged_off_refl)
next
  fix rc1 wav rc2 ogg fs1 ok
  assume bs: "backup_step_xray E i backup fs = Some fs1"
    and cp: "copy_bytes (io_fault E) ogg ''temp.ogg'' i fs1 = (ok, fs')"
  from unchanged_off_trans_mono [OF backup_step_xray_frame [OF bs assms(2)] copy_bytes_frame [OF cp],
      of "[i, b]"]
  show ?thesis by simp
qed

lemma reencode_ogg_xray_no_name:
  assumes "reencode_ogg_xray E i backup fs = (r, fs')" and "with_suffix i ''.ogg.bak'' = None"
  shows "unchanged_off [i] fs fs'"
  using reencode_ogg_xray_cases [OF assms(1)]
proof (elim disjE exE conjE)
  assume "fs' = fs"
  then show ?thesis by (simp add: unchanged_off_refl)
next
  fix rc1 wav rc2 ogg fs1 ok
  assume bs: "backup_step_xray E i backup fs = Some fs1"
    and cp: "copy_bytes (io_fault E) ogg ''temp.ogg'' i fs1 = (ok, fs')"
  from bs assms(2) have "fs1 = fs"
    by (simp add: backup_step_xray_def split: if_splits)
  with copy_bytes_frame [OF cp] show ?thesis by simp
qed

lemma sibling_length: "q \<noteq> [] \<Longrightarrow> p \<noteq> [] \<Longrightarrow> butlast q = butlast p \<Longrightarrow> length q = length p"
  by (cases q rule: rev_cases; cases p rule: rev_cases) auto

lemma copy_bytes_into_dir:
  assumes "copy_bytes flt b sn dst fs = (ok, fs')" "lookup fs dst = Some Dir" "q \<noteq> dst @ [sn]"
  shows "lookup fs' q = lookup fs q"
proof -
  from assms(1,2) have "fs' = fs \<or> (\<exists>c. fs' = AList.update (dst @ [sn]) (File c) fs)"
    by (auto simp: copy_bytes_def Let_def split: fault.splits if_splits)
  with assms(3) show ?thesis by (auto simp: lookup_update)
qed

lemma no_new_bak_files:
  assumes run: "reencode_ogg_files E p backup fs = (r, fs')"
    and q: "q \<noteq> []" "butlast q = butlast p" "suffix ''.bak'' (path_name q)"
    and nb: "with_suffix p ''.ogg.bak'' \<noteq> Some q"
    and new: "lookup fs' q \<noteq> None"
  shows "lookup fs q \<noteq> None"
proof (cases "with_suffix p ''.ogg.bak''")
  case None
  with run reencode_ogg_files_no_name [of p E backup fs] new show ?thesis by simp
next
  case (Some b)
  then have "path_name p \<noteq> []" using with_suffix_None_iff [of p "''.ogg.bak''"] by auto
  then obtain t where t: "with_suffix p ''.tmp.ogg'' = Some t"
    using with_suffix_None_iff [of p "''.tmp.ogg''"] by (cases "with_suffix p ''.tmp.ogg''") auto
  from with_suffix_shape [OF t] obtain stem where st: "p \<noteq> []" "t = butlast p @ [stem @ ''.tmp.ogg'']"
    by blast
  have len: "length q = length p" "length t = length p" "length b = length p"
    using sibling_length [OF q(1) st(1) q(2)] with_suffix_sibling [OF t] with_suffix_sibling [OF Some]
    by simp_all
  have qt: "q \<noteq> t" using q(3) st(2) not_bak_tmp [of stem] by (auto simp: path_name_def)
  have qb: "q \<noteq> b" using nb Some by simp
  show ?thesis
  proof (cases "q = p")
    case True
    show ?thesis
    proof (cases "path_exists fs p")
      case True
      with \<open>q = p\<close> show ?thesis by (simp add: path_exists_def)
    next
      case False
      with run new show ?thesis by (simp add: reencode_ogg_files_def)
    qed
  next
    case False
    have "lookup fs' q = lookup fs q"
      using False qt qb len
      by (intro unchanged_off_sibling [OF reencode_ogg_files_frame [OF run t Some]]) auto
    with new show ?thesis by simp
  qed
qed

lemma no_new_bak_xray:
  assumes run: "reencode_ogg_xray E p backup fs = (r, fs')"
    and q: "q \<noteq> []" "butlast q = butlast p" "suffix ''.bak'' (path_name q)"
    and nb: "with_suffix p ''.ogg.bak'' \<noteq> Some q"
    and new: "lookup fs' q \<noteq> None"
  shows "lookup fs q \<noteq> None"
proof (cases "q = p")
  case True
  from reencode_ogg_xray_cases [OF run] new True show ?thesis
    by (auto simp: path_exists_def)
next
  case qp: False
  show ?thesis
  proof (cases "p = []")
    case True
    have d: "lookup fs [] = Some Dir" by (simp add: lookup_def)
    have ws: "with_suffix [] ''.ogg.bak'' = None" by (simp add: with_suffix_def path_name_def)
    have qn: "q \<noteq> [] @ [''temp.ogg'']"
      using q(3) by (auto simp: path_name_def suffix_to_prefix)
    from reencode_ogg_xray_cases [OF run] have "lookup fs' q = lookup fs q"
    proof (elim disjE exE conjE)
      assume "fs' = fs" then show ?thesis by simp
    next
      fix rc1 wav rc2 ogg fs1 ok
      assume bs: "backup_step_xray E p backup fs = Some fs1"
        and cp: "copy_bytes (io_fault E) ogg ''temp.ogg'' p fs1 = (ok, fs')"
      from bs True ws have "fs1 = fs" by (simp add: backup_step_xray_def split: if_splits)
      with cp True copy_bytes_into_dir [of "io_fault E" ogg "''temp.ogg''" "[]" fs ok fs' q] d qn
      show ?thesis by simp
    qed
    with new show ?thesis by simp
  next
    case pne: False
    then have len: "length q = length p" using sibling_length q(1,2) by blast
    show ?thesis
    proof (cases "with_suffix p ''.ogg.bak''")
      case None
      have "lookup fs' q = lookup fs q"
        using qp len by (intro unchanged_off_sibling [OF reencode_ogg_xray_no_name [OF run None]]) auto
      with new show ?thesis by simp
    next
      case (Some b)
      have "length b = length p" using with_suffix_sibling [OF Some] by simp
      moreover have "q \<noteq> b" using nb Some by simp
      ultimately have "lookup fs' q = lookup fs q"
        using qp len by (intro unchanged_off_sibling [OF reencode_ogg_xray_frame [OF run Some]]) auto
      with new show ?thesis by simp
    qed
  qed
qed

lemma name_ogg_path: "p \<noteq> [] \<Longrightarrow> path_name p = nm \<Longrightarrow> p = butlast p @ [nm]"
  by (cases p rule: rev_cases) (auto simp: path_name_def)

section \<open>The steps of the one-stage script\<close>

lemma cleanup_cases:
  assumes "cleanup E t fs = (ok, fs')"
  shows "(ok \<and> lookup fs t = None \<and> fs' = fs)
       \<or> (ok \<and> t \<noteq> [] \<and> (\<exists>c. lookup fs t = Some (File c)) \<and> fs' = AList.delete t fs)
       \<or> (\<not> ok \<and> lookup fs t \<noteq> None \<and> fs' = fs)"
proof (cases "path_exists fs t")
  case False
  with assms show ?thesis by (auto simp: cleanup_def path_exists_def)
next
  case True
  with assms have u: "unlink (io_fault E) t fs = (ok, fs')" by (simp add: cleanup_def)
  show ?thesis
  proof (cases ok)
    case True
    with u unlink_True [of "io_fault E" t fs fs'] lookup_file_nonempty [of fs t] show ?thesis by auto
  next
    case False
    with u unlink_False [of "io_fault E" t fs fs'] \<open>path_exists fs t\<close> show ?thesis
      by (auto simp: path_exists_def)
  qed
qed

lemma cleanup_lookup:
  "cleanup E t fs = (ok, fs') \<Longrightarrow> q \<noteq> t \<Longrightarrow> lookup fs' q = lookup fs q"
  by (drule cleanup_cases) (auto simp: lookup_delete)

lemma cleanup_gone: "cleanup E t fs = (True, fs') \<Longrightarrow> lookup fs' t = None"
  by (drule cleanup_cases) (auto simp: lookup_delete)

lemma backup_step_files_lookup:
  assumes run: "backup_step_files E p b backup fs = (ok, fs')"
    and p: "lookup fs p = Some (File orig)" and bp: "b \<noteq> p"
  shows "(\<forall>q. q \<noteq> b \<longrightarrow> lookup fs' q = lookup fs q)
       \<and> (ok \<and> backup \<longrightarrow> lookup fs' b = Some (File orig))"
proof (cases backup)
  case False
  with run show ?thesis by (simp add: backup_step_files_def)
next
  case True
  obtain ok1 fsa where u: "(if path_exists fs b then unlink (io_fault E) b fs else (True, fs)) = (ok1, fsa)"
    by (cases "if path_exists fs b then unlink (io_fault E) b fs else (True, fs)")
  then have c1: "cleanup E b fs = (ok1, fsa)" by (simp add: cleanup_def)
  note fa = cleanup_lookup [OF c1]
  show ?thesis
  proof (cases ok1)
    case False
    with run True u have "fs' = fsa" "\<not> ok" by (simp_all add: backup_step_files_def)
    with fa show ?thesis by simp
  next
    case ok1: True
    with c1 have gone: "lookup fsa b = None" using cleanup_gone [of E b fs fsa] by simp
    then have bne: "b \<noteq> []" by (rule lookup_None_nonempty)
    from run True u ok1 have "copy2 (io_fault E) p b fsa = (ok, fs')"
      by (simp add: backup_step_files_def)
    moreover have "lookup fsa p = Some (File orig)" using fa [of p] p bp by simp
    ultimately have "copy_bytes (io_fault E) orig (path_name p) b fsa = (ok, fs')"
      by (rule copy2_file)
    from copy_bytes_file [OF this] gone
    have "(ok \<and> fs' = AList.update b (File orig) fsa) \<or> (\<not> ok \<and> fs' = fsa)
        \<or> (\<not> ok \<and> (\<exists>n. fs' = AList.update b (File (take n orig)) fsa))"
      by auto
    with fa bne show ?thesis by (auto simp: lookup_update)
  qed
qed

lemma replace_step_files_cases:
  assumes run: "replace_step_files E p t fs = (ok, fs')"
    and p: "lookup fs p = Some (File orig)"
    and t: "lookup fs t = Some (File new) \<or> lookup fs t = None" and pt: "p \<noteq> t"
  shows "(ok \<and> lookup fs t = Some (File new) \<and> fs' = AList.update p (File new) (AList.delete t (AList.delete p fs)))
       \<or> (\<not> ok \<and> fs' = fs) \<or> (\<not> ok \<and> fs' = AList.delete p fs)"
proof -
  have pne: "p \<noteq> []" using p by (rule lookup_file_nonempty)
  obtain ok1 fs1 where u: "unlink (io_fault E) p fs = (ok1, fs1)"
    by (cases "unlink (io_fault E) p fs")
  show ?thesis
  proof (cases ok1)
    case False
    with run u unlink_False [of "io_fault E" p fs fs1] show ?thesis
      by (simp add: replace_step_files_def)
  next
    case True
    with u unlink_True [of "io_fault E" p fs fs1] have fs1: "fs1 = AList.delete p fs" by simp
    from run u True have r: "rename (io_fault E) t p fs1 = (ok, fs')"
      by (simp add: replace_step_files_def)
    have lt: "lookup fs1 t = lookup fs t" using fs1 pne pt by (simp add: lookup_delete)
    show ?thesis
    proof (cases ok)
      case False
      with r rename_False [of "io_fault E" t p fs1 fs'] fs1 show ?thesis by simp
    next
      case ok: True
      with r rename_True_exists [of "io_fault E" t p fs1 fs'] lt t
      have tn: "lookup fs1 t = Some (File new)" by auto
      with r ok rename_True_file [of "io_fault E" t p fs1 fs' new] fs1 lt
      show ?thesis by simp
    qed
  qed
qed

lemma try_body_files_True:
  assumes "try_body_files E p t b backup fs = (Some True, fs')"
  shows "\<exists>out fs2. ffmpeg_encode E fs p t = ToolExit 0 out
           \<and> backup_step_files E p b backup (tool_write t out fs) = (True, fs2)
           \<and> replace_step_files E p t fs2 = (True, fs')"
proof (cases "ffmpeg_encode E fs p t")
  case ToolRaised
  with assms show ?thesis by (simp add: try_body_files_def)
next
  case (ToolExit rc out)
  show ?thesis
  proof (cases "rc = 0")
    case False
    with assms ToolExit show ?thesis
      by (auto simp: try_body_files_def split: prod.splits bool.splits)
  next
    case True
    obtain ok2 fs2 where b: "backup_step_files E p b backup (tool_write t out fs) = (ok2, fs2)"
      by (cases "backup_step_files E p b backup (tool_write t out fs)")
    obtain ok3 fs3 where r: "replace_step_files E p t fs2 = (ok3, fs3)"
      by (cases "replace_step_files E p t fs2")
    from assms ToolExit True b r have "ok2 \<and> ok3 \<and> fs3 = fs'"
      by (cases ok2; cases ok3) (simp_all add: try_body_files_def)
    with ToolExit True b r show ?thesis by auto
  qed
qed

lemma reencode_ogg_files_True:
  assumes "reencode_ogg_files E p backup fs = (Returned True, fs')"
    and "with_suffix p ''.tmp.ogg'' = Some t" and "with_suffix p ''.ogg.bak'' = Some b"
  shows "try_body_files E p t b backup fs = (Some True, fs')"
proof -
  obtain r1 fs1 where tb: "try_body_files E p t b backup fs = (r1, fs1)"
    by (cases "try_body_files E p t b backup fs")
  obtain ok2 fs2 where c: "cleanup E t fs1 = (ok2, fs2)" by (cases "cleanup E t fs1")
  from assms tb c show ?thesis
    by (cases r1; cases ok2) (auto simp: reencode_ogg_files_def split: if_splits)
qed



lemma try_body_files_nonzero:
  assumes "ffmpeg_encode E fs p t = ToolExit rc out" "rc \<noteq> 0"
    and "cleanup E t (tool_write t out fs) = (ok, fs2)"
  shows "try_body_files E p t b backup fs = (if ok then Some False else None, fs2)"
  using assms by (cases ok) (simp_all add: try_body_files_def)

section \<open>The batch loop\<close>

lemma processed_append: "processed (xs @ ys) = processed xs @ processed ys"
  by (induction xs rule: processed.induct) auto


lemma process_loop_prefix:
  assumes "process_loop pf reenc n i fl s f out fs = (res, out', fs')"
  shows "prefix (processed out') (processed out @ fl)"
  using assms
proof (induction fl arbitrary: i s f out fs)
  case Nil
  then show ?case by simp
next
  case (Cons p fl)
  show ?case
  proof (cases "pf i n p")
    case True
    with Cons.prems show ?thesis by auto
  next
    case np: False
    obtain r fs1 where st: "reenc p fs = (r, fs1)" by (cases "reenc p fs")
    show ?thesis
    proof (cases r)
      case Escaped
      with Cons.prems st np show ?thesis by (auto simp: processed_append)
    next
      case (Returned ok)
      show ?thesis
      proof (cases ok)
        case True
        with Cons.prems st Returned np
        have "process_loop pf reenc n (i + 1) fl (s + 1) f (out @ [Processing i n p, FileOK]) fs1
                = (res, out', fs')" by simp
        from Cons.IH [OF this] show ?thesis by (simp add: processed_append)
      next
        case False
        with Cons.prems st Returned np
        have "process_loop pf reenc n (i + 1) fl s (f + 1) (out @ [Processing i n p]) fs1
                = (res, out', fs')" by simp
        from Cons.IH [OF this] show ?thesis by (simp add: processed_append)
      qed
    qed
  qed
qed


lemma process_directory_processed:
  assumes "process_directory pf discover reenc d rec fs = (ok, out, fs')"
  shows "prefix (processed out) (discover fs d rec)"
proof (cases "path_exists fs d \<and> discover fs d rec \<noteq> []")
  case False
  with assms show ?thesis by (auto simp: process_directory_def Let_def split: if_splits)
next
  case True
  let ?fl = "discover fs d rec"
  obtain res out1 fs1 where l: "process_loop pf reenc (length ?fl) 1 ?fl 0 0 [Found (length ?fl)] fs = (res, out1, fs1)"
    by (cases "process_loop pf reenc (length ?fl) 1 ?fl 0 0 [Found (length ?fl)] fs")
  from process_loop_prefix [OF l] have p: "prefix (processed out1) ?fl" by simp
  show ?thesis
  proof (cases res)
    case None
    with assms True l have "out = out1" by (simp add: process_directory_def)
    with p show ?thesis by simp
  next
    case (Some sf)
    obtain s f where sf: "sf = (s, f)" by (cases sf)
    from assms True l Some sf
    have "out = out1 @ [Summary s f] @ (if 0 < s then [BackupNote] else [])"
      by (simp add: process_directory_def)
    then have "processed out = processed out1" by (simp add: processed_append)
    with p show ?thesis by simp
  qed
qed

section \<open>Facts about the entry points\<close>



section \<open>Facts about discovery\<close>

lemma ogg_not_bak: "suffix ''.ogg'' nm \<Longrightarrow> \<not> suffix ''.bak'' nm"
  by (auto simp: suffix_def)

lemma ogg_bak_is_bak: "suffix ''.ogg.bak'' nm \<Longrightarrow> suffix ''.bak'' nm"
  by (auto simp: suffix_def)

lemma find_ogg_names: "f \<in> set (find_ogg fs d rec) \<Longrightarrow> suffix ''.ogg'' (path_name f)"
  by (auto simp: find_ogg_def glob_ogg_def rglob_ogg_def split: if_splits)

lemma nested_found_iff_recursive:
  assumes "f \<in> fst ` set fs" "strict_prefix d f" "butlast f \<noteq> d" "suffix ''.ogg'' (path_name f)"
  shows "\<not> sublist ''.tmp.'' (path_name f) \<Longrightarrow> f \<in> set (ogg_files_files fs d rec) \<longleftrightarrow> rec"
    and "\<not> sublist ''.bak'' (str_path f) \<Longrightarrow> f \<in> set (ogg_files_xray fs d rec) \<longleftrightarrow> rec"
  using assms ogg_not_bak [of "path_name f"]
  by (auto simp: ogg_files_files_def ogg_files_xray_def find_ogg_def glob_ogg_def rglob_ogg_def)

section \<open>Process-level errors\<close>

lemma run_directory_missing:
  "\<not> path_exists fs (target_directory argv) \<Longrightarrow>
   run_directory (process_directory pf d r) banner argv fs =
     (0, banner @ [Target (snd (parse_args argv)) (fst (parse_args argv)),
                   DirectoryNotFound (target_directory argv)], fs)"
  by (cases "parse_args argv")
     (simp add: run_directory_def process_directory_def target_directory_def)

text \<open>
  C9. When a required tool is unavailable or the target directory does not exist, the
  run ends with the file system exactly as it found it, and no file has been taken up for
  processing. For fix\_ogg\_files.py the required tool is ffmpeg, for fix\_ogg\_xray.py
  ffmpeg and oggenc.
\<close>

theorem process_level_errors_touch_nothing:
  "(\<not> check_ffmpeg E \<or> \<not> path_exists fs (target_directory argv) \<longrightarrow>
      snd (snd (main_files E argv fs)) = fs
      \<and> (\<forall>i n f. Processing i n f \<notin> set (fst (snd (main_files E argv fs)))))
   \<and> (\<not> fst (check_tools E) \<or> \<not> snd (check_tools E)
        \<or> \<not> path_exists fs (target_directory argv) \<longrightarrow>
      snd (snd (main_xray E argv fs)) = fs
      \<and> (\<forall>i n f. Processing i n f \<notin> set (fst (snd (main_xray E argv fs)))))"
  by (auto simp: main_files_def main_xray_def process_directory_files_def
      process_directory_xray_def run_directory_missing check_tools_def)

theorem process_level_errors_touch_nothing_witness:
  "\<not> check_ffmpeg (env_ok\<lparr>ffmpeg_probe := NotFound\<rparr>)
   \<and> snd (snd (main_files (env_ok\<lparr>ffmpeg_probe := NotFound\<rparr>) [''prog''] fs_abc)) = fs_abc
   \<and> \<not> path_exists fs_abc (target_directory [''prog'', ''nodir''])
   \<and> snd (snd (main_files env_ok [''prog'', ''nodir''] fs_abc)) = fs_abc
   \<and> \<not> snd (check_tools (env_ok\<lparr>oggenc_probe := NotFound\<rparr>))
   \<and> snd (snd (main_xray (env_ok\<lparr>oggenc_probe := NotFound\<rparr>) [''prog''] fs_abc)) = fs_abc
   \<and> snd (snd (main_xray env_ok [''prog'', ''nodir''] fs_abc)) = fs_abc"
proof -
  have a: "\<not> check_ffmpeg (env_ok\<lparr>ffmpeg_probe := NotFound\<rparr>)"
    by (simp add: check_ffmpeg_def env_ok_def)
  have b: "\<not> path_exists fs_abc (target_directory [''prog'', ''nodir''])"
    by (simp add: path_exists_def lookup_def target_directory_def parse_args_def Path_def fs_abc_def)
  have c: "\<not> snd (check_tools (env_ok\<lparr>oggenc_probe := NotFound\<rparr>))"
    by (simp add: check_tools_def env_ok_def)
  show ?thesis
    using a b c
      process_level_errors_touch_nothing [of "env_ok\<lparr>ffmpeg_probe := NotFound\<rparr>" fs_abc "[''prog'']"]
      process_level_errors_touch_nothing [of env_ok fs_abc "[''prog'', ''nodir'']"]
      process_level_errors_touch_nothing [of "env_ok\<lparr>oggenc_probe := NotFound\<rparr>" fs_abc "[''prog'']"]
    by blast
qed

section \<open>The swallowed backup failure of fix\_ogg\_xray.py\<close>

text \<open>
  C10. In the two-stage script a failure of the backup copy is swallowed: when both
  stages produced their output, backup is requested, no backup is present and the backup
  copy raises, then, the final copy working and \<open>reencode_ogg\<close> returning, the original
  is replaced by the transformed bytes all the same and the result is Success. The backup
  path holds whatever the failed copy left; when the copy was refused outright, no backup
  exists.
\<close>

theorem xray_backup_failure_swallowed:
  assumes "lookup fs input_path = Some (File orig)"
    and "ffmpeg_decode E fs input_path = ToolExit rc1 (Some wav)"
    and "oggenc E fs input_path wav = ToolExit rc2 (Some new)"
    and "with_suffix input_path ''.ogg.bak'' = Some backup_path"
    and "lookup fs backup_path = None"
    and "copy2 (io_fault E) input_path backup_path fs = (False, fs1)"
    and "io_fault E fs1 (CopyTo input_path) = NoFault"
    and "fst (reencode_ogg_xray E input_path True fs) \<noteq> Escaped"
  shows "fst (reencode_ogg_xray E input_path True fs) = Returned True
       \<and> lookup (snd (reencode_ogg_xray E input_path True fs)) input_path = Some (File new)
       \<and> lookup (snd (reencode_ogg_xray E input_path True fs)) backup_path = lookup fs1 backup_path
       \<and> (io_fault E fs (CopyTo backup_path) = Denied \<longrightarrow>
            lookup (snd (reencode_ogg_xray E input_path True fs)) backup_path = None)"
proof -
  from assms(4) have ne: "backup_path \<noteq> input_path" "input_path \<noteq> []"
    using with_suffix_bak_neq [of input_path] with_suffix_shape [of input_path "''.ogg.bak''" backup_path]
    by auto
  have ex: "path_exists fs input_path" "\<not> path_exists fs backup_path"
    using assms(1,4,5) with_suffix_sibling [of input_path "''.ogg.bak''" backup_path]
    by (auto simp: path_exists_def)
  have bs: "backup_step_xray E input_path True fs = Some fs1"
    using assms(4,6) ex by (simp add: backup_step_xray_def)
  from ne with_suffix_sibling [OF assms(4)]
  have in1: "lookup fs1 input_path = lookup fs input_path"
    by (intro unchanged_off_sibling [OF copy2_frame [OF assms(6)]]) simp
  then have nd: "lookup fs1 input_path \<noteq> Some Dir" using assms(1) by simp
  have cp: "copy_bytes (io_fault E) new ''temp.ogg'' input_path fs1 = (True, AList.update input_path (File new) fs1)"
    using nd assms(7) by (simp add: copy_bytes_def)
  have tb: "try_body_xray E input_path True fs = (Some True, AList.update input_path (File new) fs1)"
    using assms(2,3) bs cp by (simp add: try_body_xray_def)
  have r: "reencode_ogg_xray E input_path True fs = (Returned True, AList.update input_path (File new) fs1)"
    using assms(8) ex tb by (auto simp: reencode_ogg_xray_def Let_def split: if_splits)
  have den: "io_fault E fs (CopyTo backup_path) = Denied \<Longrightarrow> fs1 = fs"
    using copy_bytes_file [OF copy2_file [OF assms(6) assms(1)]] assms(5) by auto
  show ?thesis using r ne den assms(5) by (auto simp: lookup_update)
qed

theorem xray_backup_failure_swallowed_witness:
  "fst (reencode_ogg_xray env_backup_denied [''a.ogg''] True fs_abc) = Returned True
   \<and> lookup (snd (reencode_ogg_xray env_backup_denied [''a.ogg''] True fs_abc)) [''a.ogg''] = Some (File ''new'')
   \<and> lookup (snd (reencode_ogg_xray env_backup_denied [''a.ogg''] True fs_abc)) [''a.ogg.bak''] = None"
proof -
  have 1: "lookup fs_abc [''a.ogg''] = Some (File ''old'')" by (simp add: fs_abc_def lookup_def)
  have 2: "ffmpeg_decode env_backup_denied fs_abc [''a.ogg''] = ToolExit 0 (Some ''wav'')"
    by (simp add: env_backup_denied_def env_ok_def)
  have 3: "oggenc env_backup_denied fs_abc [''a.ogg''] ''wav'' = ToolExit 0 (Some ''new'')"
    by (simp add: env_backup_denied_def env_ok_def)
  have 4: "with_suffix [''a.ogg''] ''.ogg.bak'' = Some [''a.ogg.bak'']"
    using with_suffix_ogg [of "''a''" "[]" "''.ogg.bak''"] by simp
  have 5: "lookup fs_abc [''a.ogg.bak''] = None" by (simp add: fs_abc_def lookup_def)
  have 6: "copy2 (io_fault env_backup_denied) [''a.ogg''] [''a.ogg.bak''] fs_abc = (False, fs_abc)"
    by (simp add: copy2_def copy_bytes_def env_backup_denied_def env_ok_def fs_abc_def
        path_name_def lookup_def)
  have 7: "io_fault env_backup_denied fs_abc (CopyTo [''a.ogg'']) = NoFault"
    by (simp add: env_backup_denied_def env_ok_def)
  have 8: "io_fault env_backup_denied fs_abc (CopyTo [''a.ogg.bak'']) = Denied"
    by (simp add: env_backup_denied_def env_ok_def)
  have 9: "fst (reencode_ogg_xray env_backup_denied [''a.ogg''] True fs_abc) \<noteq> Escaped"
    by (simp add: reencode_ogg_xray_def try_body_xray_def 4 backup_step_xray_def copy2_def
        copy_bytes_def path_exists_def lookup_def path_name_def env_backup_denied_def env_ok_def
        fs_abc_def)
  show ?thesis
    using xray_backup_failure_swallowed [OF 1 2 3 4 5 6 7 9] 5 8 by simp
qed

section \<open>One backup name per file\<close>

text \<open>
  C6. Processing the same file twice in succession, with either script, whatever the
  tools and the file system do and whether or not a backup is requested, brings into
  being at most one file with the backup extension next to it: every path beside the
  file whose name ends in \<open>.bak\<close> and that exists afterwards but did not before is the
  backup path of the file, which for \<open>name.ogg\<close> is \<open>name.ogg.bak\<close>. (The first script
  refreshes an existing backup, the second keeps it; the name is the same.)
\<close>

theorem backup_naming_idempotent:
  assumes "(reencode_ogg_files E1 p backup1 fs = (r1, fs1) \<and> reencode_ogg_files E2 p backup2 fs1 = (r2, fs2))
         \<or> (reencode_ogg_xray E1 p backup1 fs = (r1, fs1) \<and> reencode_ogg_xray E2 p backup2 fs1 = (r2, fs2))"
    and "q \<noteq> []" and "butlast q = butlast p" and "suffix ''.bak'' (path_name q)"
    and "lookup fs q = None" and "lookup fs2 q \<noteq> None"
  shows "with_suffix p ''.ogg.bak'' = Some q
       \<and> (\<forall>stem. stem \<noteq> [] \<and> path_name p = stem @ ''.ogg'' \<longrightarrow> q = butlast p @ [stem @ ''.ogg.bak''])"
proof -
  have w: "with_suffix p ''.ogg.bak'' = Some q"
  proof (rule ccontr)
    assume n: "with_suffix p ''.ogg.bak'' \<noteq> Some q"
    from assms(1) have "lookup fs q \<noteq> None"
    proof
      assume a: "reencode_ogg_files E1 p backup1 fs = (r1, fs1) \<and> reencode_ogg_files E2 p backup2 fs1 = (r2, fs2)"
      then have "lookup fs1 q \<noteq> None"
        using no_new_bak_files [of E2 p backup2 fs1 r2 fs2 q] assms(2-4,6) n by blast
      with a show ?thesis
        using no_new_bak_files [of E1 p backup1 fs r1 fs1 q] assms(2-4) n by blast
    next
      assume a: "reencode_ogg_xray E1 p backup1 fs = (r1, fs1) \<and> reencode_ogg_xray E2 p backup2 fs1 = (r2, fs2)"
      then have "lookup fs1 q \<noteq> None"
        using no_new_bak_xray [of E2 p backup2 fs1 r2 fs2 q] assms(2-4,6) n by blast
      with a show ?thesis
        using no_new_bak_xray [of E1 p backup1 fs r1 fs1 q] assms(2-4) n by blast
    qed
    with assms(5) show False by simp
  qed
  moreover have "q = butlast p @ [stem @ ''.ogg.bak'']" if "stem \<noteq> []" "path_name p = stem @ ''.ogg''" for stem
  proof -
    from w have "p \<noteq> []" using with_suffix_shape by blast
    then have "p = butlast p @ [stem @ ''.ogg'']" using that(2) by (rule name_ogg_path)
    with with_suffix_ogg [OF that(1), of "butlast p" "''.ogg.bak''"] w show ?thesis by simp
  qed
  ultimately show ?thesis by blast
qed


theorem backup_naming_idempotent_witness:
  "with_suffix [''a.ogg''] ''.ogg.bak'' = Some [''a.ogg.bak'']
   \<and> snd (reencode_ogg_files env_ok [''a.ogg''] True
          (snd (reencode_ogg_files env_ok [''a.ogg''] True fs_stale)))
       = [([''x.bak''], File ''xx''), ([''a.ogg.bak''], File ''new''), ([''a.ogg''], File ''new'')]"
proof -
  obtain r1 fs1 where 1: "reencode_ogg_files env_ok [''a.ogg''] True fs_stale = (r1, fs1)"
    by (cases "reencode_ogg_files env_ok [''a.ogg''] True fs_stale")
  obtain r2 fs2 where 2: "reencode_ogg_files env_ok [''a.ogg''] True fs1 = (r2, fs2)"
    by (cases "reencode_ogg_files env_ok [''a.ogg''] True fs1")
  have w: "with_suffix [''a.ogg''] ''.tmp.ogg'' = Some [''a.tmp.ogg'']"
    "with_suffix [''a.ogg''] ''.ogg.bak'' = Some [''a.ogg.bak'']"
    using with_suffix_ogg [of "''a''" "[]"] by simp_all
  have e1: "reencode_ogg_files env_ok [''a.ogg''] True fs_stale =
      (Returned True, [([''x.bak''], File ''xx''), ([''a.ogg.bak''], File ''old''), ([''a.ogg''], File ''new'')])"
    by (simp add: reencode_ogg_files_def w try_body_files_def backup_step_files_def
        replace_step_files_def tool_write_def unlink_def rename_def copy2_def copy_bytes_def
        path_exists_def lookup_def path_name_def env_ok_def fs_stale_def)
  have e2: "reencode_ogg_files env_ok [''a.ogg''] True
        [([''x.bak''], File ''xx''), ([''a.ogg.bak''], File ''old''), ([''a.ogg''], File ''new'')] =
      (Returned True, [([''x.bak''], File ''xx''), ([''a.ogg.bak''], File ''new''), ([''a.ogg''], File ''new'')])"
    by (simp add: reencode_ogg_files_def w try_body_files_def backup_step_files_def
        replace_step_files_def tool_write_def unlink_def rename_def copy2_def copy_bytes_def
        path_exists_def lookup_def path_name_def env_ok_def)
  from 1 e1 have f1: "fs1 = [([''x.bak''], File ''xx''), ([''a.ogg.bak''], File ''old''), ([''a.ogg''], File ''new'')]"
    by simp
  from 2 e2 f1 have f2: "fs2 = [([''x.bak''], File ''xx''), ([''a.ogg.bak''], File ''new''), ([''a.ogg''], File ''new'')]"
    by simp
  have h: "[''a.ogg.bak''] \<noteq> []" "butlast [''a.ogg.bak''] = butlast [''a.ogg'']"
    "suffix ''.bak'' (path_name [''a.ogg.bak''])" "lookup fs_stale [''a.ogg.bak''] = None"
    "lookup fs2 [''a.ogg.bak''] \<noteq> None"
    by (simp_all add: f2 path_name_def suffix_to_prefix lookup_def fs_stale_def)
  from backup_naming_idempotent [OF disjI1 [OF conjI [OF 1 2]] h]
  show ?thesis using e1 e2 by simp
qed

section \<open>The backup holds the original\<close>

text \<open>
  C5, as amended. Let \<open>name.ogg\<close> be a regular file that is processed with backup
  requested and the result is Success.

  In fix\_ogg\_files.py, the transform having written its output to the temporary path:
  the backup step ends with the original bytes at \<open>name.ogg.bak\<close> while \<open>name.ogg\<close> still
  holds them, only then is the original replaced, and afterwards \<open>name.ogg.bak\<close> holds the
  original bytes and \<open>name.ogg\<close> the transformed bytes. An older backup is overwritten.

  In fix\_ogg\_xray.py the same holds provided no backup was present and the backup copy
  itself completed: a backup copy that fails is passed over and an existing backup is
  kept as it is.
\<close>

theorem backup_holds_original_after_success:
  assumes stem: "stem \<noteq> []"
    and p: "p = dir @ [stem @ ''.ogg'']"
    and t: "t = dir @ [stem @ ''.tmp.ogg'']"
    and b: "b = dir @ [stem @ ''.ogg.bak'']"
    and orig: "lookup fs p = Some (File orig)"
  shows "(reencode_ogg_files E p True fs = (Returned True, fs')
          \<and> ffmpeg_encode E fs p t = ToolExit rc (Some new) \<and> lookup fs t \<noteq> Some Dir \<longrightarrow>
            (\<exists>fs2. backup_step_files E p b True (tool_write t (Some new) fs) = (True, fs2)
                 \<and> lookup fs2 b = Some (File orig) \<and> lookup fs2 p = Some (File orig)
                 \<and> replace_step_files E p t fs2 = (True, fs'))
            \<and> lookup fs' b = Some (File orig) \<and> lookup fs' p = Some (File new))
       \<and> (reencode_ogg_xray E p True fs = (Returned True, fs')
          \<and> ffmpeg_decode E fs p = ToolExit rc1 (Some wav)
          \<and> oggenc E fs p wav = ToolExit rc2 (Some new)
          \<and> lookup fs b = None \<and> fst (copy2 (io_fault E) p b fs) \<longrightarrow>
            (\<exists>fs1. backup_step_xray E p True fs = Some fs1
                 \<and> lookup fs1 b = Some (File orig) \<and> lookup fs1 p = Some (File orig)
                 \<and> copy_bytes (io_fault E) new ''temp.ogg'' p fs1 = (True, fs'))
            \<and> lookup fs' b = Some (File orig) \<and> lookup fs' p = Some (File new))"
proof -
  have wt: "with_suffix p ''.tmp.ogg'' = Some t" and wb: "with_suffix p ''.ogg.bak'' = Some b"
    using with_suffix_ogg [OF stem, of dir] p t b by simp_all
  have ne: "p \<noteq> t" "b \<noteq> p" "b \<noteq> t" "p \<noteq> []" "b \<noteq> []"
    using p t b by auto
  have one:
    "(\<exists>fs2. backup_step_files E p b True (tool_write t (Some new) fs) = (True, fs2)
                 \<and> lookup fs2 b = Some (File orig) \<and> lookup fs2 p = Some (File orig)
                 \<and> replace_step_files E p t fs2 = (True, fs'))
            \<and> lookup fs' b = Some (File orig) \<and> lookup fs' p = Some (File new)"
    if run: "reencode_ogg_files E p True fs = (Returned True, fs')"
      and tool: "ffmpeg_encode E fs p t = ToolExit rc (Some new)"
      and nd: "lookup fs t \<noteq> Some Dir"
  proof -
    let ?fs1 = "tool_write t (Some new) fs"
    from try_body_files_True [OF reencode_ogg_files_True [OF run wt wb]] tool
    obtain fs2 where bs: "backup_step_files E p b True ?fs1 = (True, fs2)"
      and rs: "replace_step_files E p t fs2 = (True, fs')" by auto
    have l1: "lookup ?fs1 p = Some (File orig)" "lookup ?fs1 t = Some (File new)"
      using tool_write_Some [OF nd, of new] orig ne by simp_all
    from backup_step_files_lookup [OF bs l1(1) ne(2)]
    have l2: "lookup fs2 b = Some (File orig)" "lookup fs2 p = Some (File orig)"
      "lookup fs2 t = Some (File new)"
      using l1 ne by simp_all
    from replace_step_files_cases [OF rs l2(2) disjI1 [OF l2(3)] ne(1)]
    have fs': "fs' = AList.update p (File new) (AList.delete t (AList.delete p fs2))" by simp
    have tne: "t \<noteq> []" using t by simp
    have l3: "lookup fs' b = Some (File orig)" "lookup fs' p = Some (File new)"
      using l2 ne tne by (simp_all add: fs' lookup_update lookup_delete)
    show ?thesis using bs rs l2 l3 by blast
  qed
  have two:
    "(\<exists>fs1. backup_step_xray E p True fs = Some fs1
                 \<and> lookup fs1 b = Some (File orig) \<and> lookup fs1 p = Some (File orig)
                 \<and> copy_bytes (io_fault E) new ''temp.ogg'' p fs1 = (True, fs'))
            \<and> lookup fs' b = Some (File orig) \<and> lookup fs' p = Some (File new)"
    if run: "reencode_ogg_xray E p True fs = (Returned True, fs')"
      and dec: "ffmpeg_decode E fs p = ToolExit rc1 (Some wav)"
      and enc: "oggenc E fs p wav = ToolExit rc2 (Some new)"
      and nb: "lookup fs b = None" and cp: "fst (copy2 (io_fault E) p b fs)"
  proof -
    obtain fs1 where c2: "copy2 (io_fault E) p b fs = (True, fs1)"
      using cp by (cases "copy2 (io_fault E) p b fs") auto
    from copy_bytes_file [OF copy2_file [OF c2 orig]] nb
    have fs1: "fs1 = AList.update b (File orig) fs" by auto
    have bs: "backup_step_xray E p True fs = Some fs1"
      using wb nb c2 by (simp add: backup_step_xray_def path_exists_def)
    have l1: "lookup fs1 b = Some (File orig)" "lookup fs1 p = Some (File orig)"
      using orig ne by (simp_all add: fs1 lookup_update)
    from reencode_ogg_xray_cases [OF run] dec enc bs
    have cb: "copy_bytes (io_fault E) new ''temp.ogg'' p fs1 = (True, fs')" by auto
    from copy_bytes_file [OF cb] l1(2) have fs': "fs' = AList.update p (File new) fs1" by auto
    have l2: "lookup fs' b = Some (File orig)" "lookup fs' p = Some (File new)"
      using l1 ne by (simp_all add: fs' lookup_update)
    show ?thesis using bs cb l1 l2 by blast
  qed
  show ?thesis using one two by blast
qed


theorem backup_holds_original_after_success_witness:
  "lookup (snd (reencode_ogg_files env_ok [''a.ogg''] True fs_abc)) [''a.ogg.bak''] = Some (File ''old'')
   \<and> lookup (snd (reencode_ogg_files env_ok [''a.ogg''] True fs_abc)) [''a.ogg''] = Some (File ''new'')
   \<and> lookup (snd (reencode_ogg_xray env_ok [''a.ogg''] True fs_abc)) [''a.ogg.bak''] = Some (File ''old'')
   \<and> lookup (snd (reencode_ogg_xray env_ok [''a.ogg''] True fs_abc)) [''a.ogg''] = Some (File ''new'')"
proof -
  have w: "with_suffix [''a.ogg''] ''.tmp.ogg'' = Some [''a.tmp.ogg'']"
    "with_suffix [''a.ogg''] ''.ogg.bak'' = Some [''a.ogg.bak'']"
    using with_suffix_ogg [of "''a''" "[]"] by simp_all
  obtain fsF where e1: "reencode_ogg_files env_ok [''a.ogg''] True fs_abc = (Returned True, fsF)"
    by (simp add: reencode_ogg_files_def w try_body_files_def backup_step_files_def
        replace_step_files_def tool_write_def unlink_def rename_def copy2_def copy_bytes_def
        path_exists_def lookup_def path_name_def env_ok_def fs_abc_def)
  obtain fsX where e2: "reencode_ogg_xray env_ok [''a.ogg''] True fs_abc = (Returned True, fsX)"
    by (simp add: reencode_ogg_xray_def try_body_xray_def w backup_step_xray_def copy2_def copy_bytes_def
        path_exists_def lookup_def path_name_def env_ok_def fs_abc_def)
  have h: "''a'' \<noteq> []" "[''a.ogg''] = [] @ [''a'' @ ''.ogg'']" "[''a.tmp.ogg''] = [] @ [''a'' @ ''.tmp.ogg'']"
    "[''a.ogg.bak''] = [] @ [''a'' @ ''.ogg.bak'']" "lookup fs_abc [''a.ogg''] = Some (File ''old'')"
    by (simp_all add: lookup_def fs_abc_def)
  have t1: "ffmpeg_encode env_ok fs_abc [''a.ogg''] [''a.tmp.ogg''] = ToolExit 0 (Some ''new'')"
    "lookup fs_abc [''a.tmp.ogg''] \<noteq> Some Dir"
    by (simp_all add: env_ok_def lookup_def fs_abc_def)
  have t2: "ffmpeg_decode env_ok fs_abc [''a.ogg''] = ToolExit 0 (Some ''wav'')"
    "oggenc env_ok fs_abc [''a.ogg''] ''wav'' = ToolExit 0 (Some ''new'')"
    "lookup fs_abc [''a.ogg.bak''] = None"
    "fst (copy2 (io_fault env_ok) [''a.ogg''] [''a.ogg.bak''] fs_abc)"
    by (simp_all add: env_ok_def lookup_def fs_abc_def copy2_def copy_bytes_def path_name_def)
  from backup_holds_original_after_success [OF h, of env_ok fsF 0 "''new''" 0 "''wav''" 0] e1 t1
  have "lookup fsF [''a.ogg.bak''] = Some (File ''old'') \<and> lookup fsF [''a.ogg''] = Some (File ''new'')"
    by blast
  moreover
  from backup_holds_original_after_success [OF h, of env_ok fsX 0 "''new''" 0 "''wav''" 0] e2 t2
  have "lookup fsX [''a.ogg.bak''] = Some (File ''old'') \<and> lookup fsX [''a.ogg''] = Some (File ''new'')"
    by blast
  ultimately show ?thesis using e1 e2 by simp
qed

text \<open>
  The claim as stated fails in fix\_ogg\_xray.py: with no backup present and the backup
  copy of \<open>b.ogg\<close> refused, the result is Success, \<open>b.ogg\<close> holds the transformed bytes and
  no backup exists.
\<close>

theorem xray_success_without_backup:
  "fst (reencode_ogg_xray env_no_backup_b [''b.ogg''] True fs_abc) = Returned True
   \<and> lookup fs_abc [''b.ogg''] = Some (File ''bb'')
   \<and> lookup fs_abc [''b.ogg.bak''] = None
   \<and> lookup (snd (reencode_ogg_xray env_no_backup_b [''b.ogg''] True fs_abc)) [''b.ogg''] = Some (File ''new'')
   \<and> lookup (snd (reencode_ogg_xray env_no_backup_b [''b.ogg''] True fs_abc)) [''b.ogg.bak''] = None"
proof -
  have w: "with_suffix [''b.ogg''] ''.ogg.bak'' = Some [''b.ogg.bak'']"
    using with_suffix_ogg [of "''b''" "[]"] by simp
  show ?thesis
    by (simp add: reencode_ogg_xray_def try_body_xray_def w backup_step_xray_def copy2_def copy_bytes_def
        path_exists_def lookup_def path_name_def env_no_backup_b_def env_ok_def fs_abc_def)
qed

section \<open>What the replace step can leave behind\<close>





section \<open>Failure of the external transform\<close>

text \<open>
  C2, as amended. The two scripts detect a failed transform differently.

  fix\_ogg\_files.py looks at the exit status: when ffmpeg exits with a non-zero status
  on an existing file and \<open>reencode_ogg\<close> returns, the result is Failure, nothing is left at
  the temporary path, and every other path, the original among them, holds what it held
  before.

  fix\_ogg\_xray.py looks for the output file: when a stage cannot be started or writes
  no output file, the file system is as it was and the result is Failure, unless an
  exception escapes \<open>reencode_ogg\<close>; the result is never Success.
\<close>

theorem tool_failure_leaves_original:
  "(path_exists fs p \<and> with_suffix p ''.tmp.ogg'' = Some t \<and> with_suffix p ''.ogg.bak'' = Some b
      \<and> ffmpeg_encode E fs p t = ToolExit rc out \<and> rc \<noteq> 0
      \<and> reencode_ogg_files E p backup fs = (Returned x, fs') \<longrightarrow>
        x = False \<and> lookup fs' t = None \<and> (\<forall>q. q \<noteq> t \<longrightarrow> lookup fs' q = lookup fs q))
   \<and> (ffmpeg_decode E fs p = ToolRaised \<or> ffmpeg_decode E fs p = ToolExit rcd None
        \<or> (ffmpeg_decode E fs p = ToolExit rcd (Some wav)
            \<and> (oggenc E fs p wav = ToolRaised \<or> oggenc E fs p wav = ToolExit rce None)) \<longrightarrow>
        snd (reencode_ogg_xray E p backup fs) = fs
        \<and> (fst (reencode_ogg_xray E p backup fs) = Returned False
           \<or> fst (reencode_ogg_xray E p backup fs) = Escaped))"
proof (rule conjI; rule impI)
  assume a: "path_exists fs p \<and> with_suffix p ''.tmp.ogg'' = Some t \<and> with_suffix p ''.ogg.bak'' = Some b
      \<and> ffmpeg_encode E fs p t = ToolExit rc out \<and> rc \<noteq> 0
      \<and> reencode_ogg_files E p backup fs = (Returned x, fs')"
  then have ex: "path_exists fs p" and wt: "with_suffix p ''.tmp.ogg'' = Some t"
    and wb: "with_suffix p ''.ogg.bak'' = Some b"
    and run: "reencode_ogg_files E p backup fs = (Returned x, fs')"
    by simp_all
  let ?fs1 = "tool_write t out fs"
  obtain ok fs2 where c: "cleanup E t ?fs1 = (ok, fs2)" by (cases "cleanup E t ?fs1")
  from a have tb: "try_body_files E p t b backup fs = (if ok then Some False else None, fs2)"
    using try_body_files_nonzero [OF _ _ c] by blast
  have ok: ok
  proof (rule ccontr)
    assume n: "\<not> ok"
    with c cleanup_cases [OF c] have "cleanup E t fs2 = (False, fs2)" by auto
    with run ex wt wb tb n show False by (simp add: reencode_ogg_files_def)
  qed
  with run ex wt wb tb have r: "x = False" "fs' = fs2" by (simp_all add: reencode_ogg_files_def)
  have "lookup fs2 t = None" using c ok cleanup_gone [of E t ?fs1 fs2] by simp
  moreover have "lookup fs2 q = lookup fs q" if "q \<noteq> t" for q
    using cleanup_lookup [OF c that] tool_write_other [OF that] by simp
  ultimately show "x = False \<and> lookup fs' t = None \<and> (\<forall>q. q \<noteq> t \<longrightarrow> lookup fs' q = lookup fs q)"
    using r by simp
next
  assume "ffmpeg_decode E fs p = ToolRaised \<or> ffmpeg_decode E fs p = ToolExit rcd None
        \<or> (ffmpeg_decode E fs p = ToolExit rcd (Some wav)
            \<and> (oggenc E fs p wav = ToolRaised \<or> oggenc E fs p wav = ToolExit rce None))"
  then have "try_body_xray E p backup fs = (None, fs) \<or> try_body_xray E p backup fs = (Some False, fs)"
    by (auto simp: try_body_xray_def)
  then show "snd (reencode_ogg_xray E p backup fs) = fs
        \<and> (fst (reencode_ogg_xray E p backup fs) = Returned False
           \<or> fst (reencode_ogg_xray E p backup fs) = Escaped)"
    by (auto simp: reencode_ogg_xray_def Let_def split: if_splits)
qed

theorem tool_failure_leaves_original_witness:
  "reencode_ogg_files env_ffmpeg_fails [''a.ogg''] True fs_abc = (Returned False, fs_abc)
   \<and> lookup fs_abc [''a.tmp.ogg''] = None
   \<and> reencode_ogg_xray env_no_wav [''a.ogg''] True fs_abc = (Returned False, fs_abc)"
proof -
  have w: "with_suffix [''a.ogg''] ''.tmp.ogg'' = Some [''a.tmp.ogg'']"
    "with_suffix [''a.ogg''] ''.ogg.bak'' = Some [''a.ogg.bak'']"
    using with_suffix_ogg [of "''a''" "[]"] by simp_all
  have e: "reencode_ogg_files env_ffmpeg_fails [''a.ogg''] True fs_abc = (Returned False, fs_abc)"
    by (simp add: reencode_ogg_files_def w try_body_files_def cleanup_def tool_write_def unlink_def
        path_exists_def lookup_def env_ffmpeg_fails_def env_ok_def fs_abc_def)
  have h: "path_exists fs_abc [''a.ogg'']"
    "ffmpeg_encode env_ffmpeg_fails fs_abc [''a.ogg''] [''a.tmp.ogg''] = ToolExit 1 (Some ''part'')"
    "(1::int) \<noteq> 0"
    "ffmpeg_decode env_no_wav fs_abc [''a.ogg''] = ToolExit 1 None"
    by (simp_all add: path_exists_def lookup_def fs_abc_def env_ffmpeg_fails_def env_no_wav_def env_ok_def)
  from tool_failure_leaves_original [where E = env_ffmpeg_fails and fs = fs_abc and p = "[''a.ogg'']"
      and t = "[''a.tmp.ogg'']" and b = "[''a.ogg.bak'']" and rc = 1 and out = "Some ''part''"
      and backup = True and x = False and fs' = fs_abc] h w e
  have "lookup fs_abc [''a.tmp.ogg''] = None" by blast
  moreover
  have ne: "fst (reencode_ogg_xray env_no_wav [''a.ogg''] True fs_abc) \<noteq> Escaped"
    by (simp add: reencode_ogg_xray_def try_body_xray_def path_exists_def lookup_def fs_abc_def
        env_no_wav_def env_ok_def)
  from tool_failure_leaves_original [where E = env_no_wav and fs = fs_abc and p = "[''a.ogg'']"
      and rcd = 1 and backup = True] h ne
  have "reencode_ogg_xray env_no_wav [''a.ogg''] True fs_abc = (Returned False, fs_abc)"
    by (cases "reencode_ogg_xray env_no_wav [''a.ogg''] True fs_abc") auto
  ultimately show ?thesis using e by simp
qed

text \<open>
  The claim as stated fails in both scripts. In fix\_ogg\_files.py an ffmpeg that exits
  with status 0 without writing its output is not noticed before the original is removed:
  the result is Failure and the original is gone from its path. In fix\_ogg\_xray.py
  stages that exit with a non-zero status but leave an output file count as Success, and
  the original is overwritten with that output.
\<close>

theorem tool_failure_not_always_caught:
  "ffmpeg_encode env_silent fs_abc [''a.ogg''] [''a.tmp.ogg''] = ToolExit 0 None
   \<and> fst (reencode_ogg_files env_silent [''a.ogg''] True fs_abc) = Returned False
   \<and> lookup fs_abc [''a.ogg''] = Some (File ''old'')
   \<and> lookup (snd (reencode_ogg_files env_silent [''a.ogg''] True fs_abc)) [''a.ogg''] = None
   \<and> ffmpeg_decode env_status_one fs_abc [''a.ogg''] = ToolExit 1 (Some ''wav'')
   \<and> oggenc env_status_one fs_abc [''a.ogg''] ''wav'' = ToolExit 1 (Some ''part'')
   \<and> fst (reencode_ogg_xray env_status_one [''a.ogg''] True fs_abc) = Returned True
   \<and> lookup (snd (reencode_ogg_xray env_status_one [''a.ogg''] True fs_abc)) [''a.ogg'']
       = Some (File ''part'')"
proof -
  have w: "with_suffix [''a.ogg''] ''.tmp.ogg'' = Some [''a.tmp.ogg'']"
    "with_suffix [''a.ogg''] ''.ogg.bak'' = Some [''a.ogg.bak'']"
    using with_suffix_ogg [of "''a''" "[]"] by simp_all
  have 1: "reencode_ogg_files env_silent [''a.ogg''] True fs_abc =
      (Returned False, [([''b.ogg''], File ''bb''), ([''c.wav''], File ''cc''), ([''a.ogg.bak''], File ''old'')])"
    by (simp add: reencode_ogg_files_def w try_body_files_def backup_step_files_def
        replace_step_files_def cleanup_def tool_write_def unlink_def rename_def copy2_def
        copy_bytes_def path_exists_def lookup_def path_name_def env_silent_def env_ok_def
        fs_abc_def)
  have 2: "reencode_ogg_xray env_status_one [''a.ogg''] True fs_abc =
      (Returned True, [([''a.ogg''], File ''part''), ([''b.ogg''], File ''bb''),
         ([''c.wav''], File ''cc''), ([''a.ogg.bak''], File ''old'')])"
    by (simp add: reencode_ogg_xray_def try_body_xray_def w backup_step_xray_def copy2_def copy_bytes_def
        path_exists_def lookup_def path_name_def env_status_one_def env_ok_def fs_abc_def)
  show ?thesis
    by (simp add: 1 2 lookup_def) (simp add: env_silent_def env_status_one_def env_ok_def fs_abc_def)
qed

section \<open>A failure that ends the batch\<close>

text \<open>
  C3. Every file of the Target Set is to be processed, whatever happens to the files
  before it. As long as every call of \<open>reencode_ogg\<close> returns, that is so in both
  scripts: the loop takes up every file once and in order, and the two counters add up to
  the number of files found (\<open>process_directory_returned\<close>,
  \<open>process_directory_processed\<close>).

  In fix\_ogg\_files.py a failure on one file can keep \<open>reencode_ogg\<close> from returning.
  The directory holds \<open>a.ogg\<close>, \<open>b.ogg\<close> and a directory named \<open>a.tmp.ogg\<close>. ffmpeg
  cannot write its output for \<open>a.ogg\<close> and exits with status 1; \<open>temp_path.exists()\<close> is
  true, \<open>temp_path.unlink()\<close> raises on the directory, the handler catches that and
  calls \<open>temp_path.unlink()\<close> again, and this second exception escapes \<open>reencode_ogg\<close>.
  The loop ends there: \<open>b.ogg\<close> is never taken up, no summary is printed, and the process
  exits with status 1.
\<close>

theorem cleanup_failure_aborts_batch:
  "ogg_files_files fs_tmp_dir [] False = [[''a.ogg''], [''b.ogg'']]
   \<and> reencode_ogg_files env_cannot_write [''a.ogg''] True fs_tmp_dir = (Escaped, fs_tmp_dir)
   \<and> process_directory_files env_cannot_write [] False fs_tmp_dir
       = (False, [Found 2, Processing 1 2 [''a.ogg'']], fs_tmp_dir)
   \<and> main_files env_cannot_write [''fix_ogg_files.py''] fs_tmp_dir
       = (1, [Banner, Target ''.'' False, Found 2, Processing 1 2 [''a.ogg''], Traceback], fs_tmp_dir)"
proof -
  have w: "with_suffix [''a.ogg''] ''.tmp.ogg'' = Some [''a.tmp.ogg'']"
    "with_suffix [''a.ogg''] ''.ogg.bak'' = Some [''a.ogg.bak'']"
    using with_suffix_ogg [of "''a''" "[]"] by simp_all
  have t: "ogg_files_files fs_tmp_dir [] False = [[''a.ogg''], [''b.ogg'']]"
    by (simp add: ogg_files_files_def find_ogg_def glob_ogg_def fs_tmp_dir_def path_name_def
        suffix_to_prefix sublist_code)
  have r: "reencode_ogg_files env_cannot_write [''a.ogg''] True fs_tmp_dir = (Escaped, fs_tmp_dir)"
    by (simp add: reencode_ogg_files_def w try_body_files_def cleanup_def tool_write_def unlink_def
        path_exists_def lookup_def env_cannot_write_def env_ok_def fs_tmp_dir_def)
  have lp: "loop_print_fault env_cannot_write = (\<lambda>i n f. False)"
    by (simp add: env_cannot_write_def env_ok_def)
  have p: "process_directory_files env_cannot_write [] False fs_tmp_dir
       = (False, [Found 2, Processing 1 2 [''a.ogg'']], fs_tmp_dir)"
    by (simp add: process_directory_files_def process_directory_def t r lp path_exists_def lookup_def)
  have c: "check_ffmpeg env_cannot_write"
    by (simp add: check_ffmpeg_def env_cannot_write_def env_ok_def)
  have m: "main_files env_cannot_write [''fix_ogg_files.py''] fs_tmp_dir
       = (1, [Banner, Target ''.'' False, Found 2, Processing 1 2 [''a.ogg''], Traceback], fs_tmp_dir)"
    by (simp add: main_files_def run_directory_def parse_args_def Path_def p c)
  show ?thesis using t r p m by simp
qed

section \<open>Exit status\<close>




section \<open>What discovery leaves out\<close>

text \<open>
  C7, as amended. In both scripts the Target Set holds only paths whose name ends in
  \<open>.ogg\<close>, none of them with a name ending in \<open>.bak\<close>; a file \<open>name.ogg.bak\<close> is never in the
  Target Set and never taken up for processing. fix\_ogg\_files.py also leaves out every
  name containing the temporary marker \<open>.tmp.\<close>. fix\_ogg\_xray.py has no such marker, its
  temporary files live elsewhere; it leaves out every path whose string contains \<open>.bak\<close>.
\<close>

theorem discovery_excludes_backups:
  "(\<forall>f \<in> set (ogg_files_files fs d rec).
       suffix ''.ogg'' (path_name f) \<and> \<not> suffix ''.bak'' (path_name f)
       \<and> \<not> sublist ''.tmp.'' (path_name f))
   \<and> (\<forall>f \<in> set (ogg_files_xray fs d rec).
       suffix ''.ogg'' (path_name f) \<and> \<not> suffix ''.bak'' (path_name f)
       \<and> \<not> sublist ''.bak'' (str_path f))
   \<and> (suffix ''.ogg.bak'' (path_name g) \<longrightarrow>
         g \<notin> set (ogg_files_files fs d rec)
       \<and> g \<notin> set (ogg_files_xray fs d rec)
       \<and> g \<notin> set (processed (fst (snd (process_directory_files E d rec fs))))
       \<and> g \<notin> set (processed (fst (snd (process_directory_xray E d rec fs)))))"
proof -
  have a: "suffix ''.ogg'' (path_name f) \<and> \<not> suffix ''.bak'' (path_name f)
       \<and> \<not> sublist ''.tmp.'' (path_name f)" if "f \<in> set (ogg_files_files fs d rec)" for f
    using that find_ogg_names [of f fs d rec] by (auto simp: ogg_files_files_def)
  have b: "suffix ''.ogg'' (path_name f) \<and> \<not> suffix ''.bak'' (path_name f)
       \<and> \<not> sublist ''.bak'' (str_path f)" if "f \<in> set (ogg_files_xray fs d rec)" for f
    using that find_ogg_names [of f fs d rec] ogg_not_bak [of "path_name f"]
    by (auto simp: ogg_files_xray_def)
  have c: "g \<notin> set (ogg_files_files fs d rec) \<and> g \<notin> set (ogg_files_xray fs d rec)
       \<and> g \<notin> set (processed (fst (snd (process_directory_files E d rec fs))))
       \<and> g \<notin> set (processed (fst (snd (process_directory_xray E d rec fs))))"
    if g: "suffix ''.ogg.bak'' (path_name g)"
  proof -
    from g have bak: "suffix ''.bak'' (path_name g)" by (rule ogg_bak_is_bak)
    have 1: "g \<notin> set (ogg_files_files fs d rec)" using a [of g] bak by blast
    have 2: "g \<notin> set (ogg_files_xray fs d rec)" using b [of g] bak by blast
    obtain ok out fs' where pf: "process_directory_files E d rec fs = (ok, out, fs')"
      by (cases "process_directory_files E d rec fs")
    obtain ok2 out2 fs2 where px: "process_directory_xray E d rec fs = (ok2, out2, fs2)"
      by (cases "process_directory_xray E d rec fs")
    from process_directory_processed [OF pf [unfolded process_directory_files_def]]
    have "set (processed out) \<subseteq> set (ogg_files_files fs d rec)" by (rule set_mono_prefix)
    moreover
    from process_directory_processed [OF px [unfolded process_directory_xray_def]]
    have "set (processed out2) \<subseteq> set (ogg_files_xray fs d rec)" by (rule set_mono_prefix)
    ultimately show ?thesis using 1 2 pf px by auto
  qed
  show ?thesis using a b c by blast
qed

theorem discovery_excludes_backups_witness:
  "ogg_files_files fs_artefacts [] False = [[''a.ogg'']]
   \<and> ogg_files_xray fs_artefacts [] False = [[''a.ogg''], [''c.tmp.ogg'']]
   \<and> suffix ''.ogg.bak'' (path_name [''a.ogg.bak''])
   \<and> [''a.ogg.bak''] \<notin> set (processed (fst (snd (process_directory_files env_ok [] False fs_artefacts))))
   \<and> [''a.ogg.bak''] \<notin> set (processed (fst (snd (process_directory_xray env_ok [] False fs_artefacts))))"
proof -
  have t: "ogg_files_files fs_artefacts [] False = [[''a.ogg'']]"
    "ogg_files_xray fs_artefacts [] False = [[''a.ogg''], [''c.tmp.ogg'']]"
    by (simp_all add: ogg_files_files_def ogg_files_xray_def find_ogg_def glob_ogg_def
        fs_artefacts_def path_name_def str_path_def suffix_to_prefix sublist_code)
  have s: "suffix ''.ogg.bak'' (path_name [''a.ogg.bak''])"
    by (simp add: path_name_def suffix_to_prefix)
  from discovery_excludes_backups [of fs_artefacts "[]" False "[''a.ogg.bak'']" env_ok] s
  have "[''a.ogg.bak''] \<notin> set (processed (fst (snd (process_directory_files env_ok [] False fs_artefacts))))
      \<and> [''a.ogg.bak''] \<notin> set (processed (fst (snd (process_directory_xray env_ok [] False fs_artefacts))))"
    by blast
  with t s show ?thesis by simp
qed

text \<open>
  The claim as stated fails in fix\_ogg\_xray.py: a file \<open>c.tmp.ogg\<close>, whose name contains
  the temporary marker, is in its Target Set.
\<close>

theorem xray_keeps_temporary_marker:
  "[''c.tmp.ogg''] \<in> set (ogg_files_xray fs_artefacts [] False)
   \<and> sublist ''.tmp.'' (path_name [''c.tmp.ogg''])
   \<and> [''c.tmp.ogg''] \<notin> set (ogg_files_files fs_artefacts [] False)"
  by (simp add: ogg_files_files_def ogg_files_xray_def find_ogg_def glob_ogg_def
      fs_artefacts_def path_name_def str_path_def suffix_to_prefix sublist_code)

section \<open>Discovery and the recursive flag\<close>

text \<open>
  C8. A file in a nested subdirectory is to be found exactly in recursive mode, and a
  directory holding \<open>a.ogg\<close>, \<open>b.ogg\<close> and \<open>c.wav\<close> is to give the two \<open>.ogg\<close> files. For
  files that pass the filter of the script this holds (\<open>nested_found_iff_recursive\<close>). The
  filter of fix\_ogg\_xray.py, however, looks for \<open>.bak\<close> anywhere in the path string, the
  directory part included, where fix\_ogg\_files.py looks at the end of the file name: run
  on a directory named \<open>music.bak\<close> that holds \<open>a.ogg\<close>, \<open>b.ogg\<close> and \<open>c.wav\<close>,
  fix\_ogg\_xray.py finds nothing, recursive or not, and reports that there are no files.
\<close>

theorem xray_skips_directory_named_bak:
  "ogg_files_files fs_bak_dir [''music.bak''] False
     = [[''music.bak'', ''a.ogg''], [''music.bak'', ''b.ogg'']]
   \<and> ogg_files_xray fs_bak_dir [''music.bak''] False = []
   \<and> ogg_files_xray fs_bak_dir [''music.bak''] True = []
   \<and> main_xray env_ok [''fix_ogg_xray.py'', ''music.bak''] fs_bak_dir
       = (0, [Banner, Target ''music.bak'' False, NoFilesFound [''music.bak'']], fs_bak_dir)"
proof -
  have t: "ogg_files_files fs_bak_dir [''music.bak''] False
     = [[''music.bak'', ''a.ogg''], [''music.bak'', ''b.ogg'']]"
    "ogg_files_xray fs_bak_dir [''music.bak''] False = []"
    "ogg_files_xray fs_bak_dir [''music.bak''] True = []"
    by (simp_all add: ogg_files_files_def ogg_files_xray_def find_ogg_def glob_ogg_def rglob_ogg_def
        fs_bak_dir_def path_name_def str_path_def suffix_to_prefix sublist_code)
  have a: "check_tools env_ok = (True, True)" by (simp add: check_tools_def env_ok_def)
  have d: "parse_args [''fix_ogg_xray.py'', ''music.bak''] = (False, ''music.bak'')"
    "Path ''music.bak'' = [''music.bak'']"
    by (simp_all add: parse_args_def Path_def)
  have e: "path_exists fs_bak_dir [''music.bak'']"
    by (simp add: path_exists_def lookup_def fs_bak_dir_def)
  have m: "main_xray env_ok [''fix_ogg_xray.py'', ''music.bak''] fs_bak_dir
       = (0, [Banner, Target ''music.bak'' False, NoFilesFound [''music.bak'']], fs_bak_dir)"
    by (simp add: main_xray_def a run_directory_def d process_directory_xray_def
        process_directory_def e t)
  show ?thesis using t m by simp
qed

theorem xray_skips_directory_named_bak_witness:
  "fst (check_tools env_ok) \<and> snd (check_tools env_ok)
   \<and> path_exists fs_bak_dir [''music.bak'']
   \<and> fst (main_xray env_ok [''fix_ogg_xray.py'', ''music.bak''] fs_bak_dir) = 0
   \<and> fst (snd (main_xray env_ok [''fix_ogg_xray.py'', ''music.bak''] fs_bak_dir))
       = [Banner, Target ''music.bak'' False, NoFilesFound [''music.bak'']]"
  using xray_skips_directory_named_bak
  by (simp add: check_tools_def env_ok_def path_exists_def lookup_def fs_bak_dir_def)

end
